theory Spec2Isabelle
  imports Main
begin

section \<open>Data model of the plugin (src/main.py)\<close>

text \<open>
  A \<open>datetime\<close> is a naive Python datetime, counted in microseconds from a fixed
  epoch (1970-01-01 00:00:00); the comparison of the source is the order of \<open>int\<close>.
\<close>

type_synonym datetime = int

text \<open>
  What the awaited collaborators can raise. \<open>Exception m\<close> is any exception below
  Python's \<open>Exception\<close> class, with \<open>m\<close> its text; \<open>CancelledError\<close> is
  \<open>asyncio.CancelledError\<close>, which is not below \<open>Exception\<close> and therefore passes
  every \<open>except Exception\<close> of the source. It is how a cancellation request reaches
  the task, at an \<open>await\<close> that suspends. The signals of the interpreter
  (\<open>KeyboardInterrupt\<close>, \<open>SystemExit\<close>) are not raised by a collaborator and are left
  out.
\<close>

datatype exn = Exception string | CancelledError

text \<open>
  The objects handed out by the host framework. A provider is an opaque object with a
  label. A \<open>result_chain\<close> is \<open>None\<close> for every value that Python treats as false
  (absent or empty) and \<open>Some c\<close> for a payload that Python treats as true.
\<close>

datatype provider = Provider string

datatype message_chain = MessageChain string

record llm_response =
  result_chain :: "message_chain option"

text \<open>A \<open>croniter\<close> object: the expression it was built from and its current instant.\<close>

record croniter =
  expr_format :: string
  cur :: datetime

text \<open>One entry of \<open>self.trigger_configs\<close>: the dict built in \<open>_parse_configs\<close>.\<close>

record trigger =
  type :: string
  platform :: string
  target_id :: string
  provider :: string
  cron_expression :: string
  cron :: croniter
  next_run :: datetime
  last_run :: "datetime option"
  message :: string

text \<open>The configuration read in \<open>__init__\<close> and the list of triggers.\<close>

record plugin =
  scheduler_check_interval :: int
  platform_group_provider_map :: "string list"
  platform_friend_provider_map :: "string list"
  admin_user_id :: string
  notification_on_failure :: bool
  notification_on_success :: bool
  trigger_configs :: "trigger list"

text \<open>
  The collaborators of the plugin, none of which is part of the repository. Every call
  of a collaborator whose answer may change over time takes the number of interactions
  made so far (\<open>ticks\<close>), so that two calls with the same arguments may answer
  differently.
  \<^item> \<open>clock k\<close> is \<open>datetime.now()\<close>.
  \<^item> \<open>croniter_init e t\<close> is \<open>croniter.croniter(e, t)\<close>, \<open>get_next c\<close> is
    \<open>c.get_next(datetime)\<close>, which returns the instant and advances the object. Both
    are synchronous library calls: they raise exceptions below \<open>Exception\<close> only.
  \<^item> \<open>get_provider_by_id k name\<close> is \<open>self.context.get_provider_by_id(name)\<close>
    (synchronous; \<open>Inr None\<close> is a result that Python treats as false).
  \<^item> \<open>text_chat k p prompt context system_prompt\<close> is the awaited
    \<open>p.text_chat(...)\<close>; \<open>Inr None\<close> is a response that Python treats as false.
  \<^item> \<open>send_message k origin chain\<close> is the awaited \<open>self.context.send_message\<close>.
  \<^item> \<open>sleep k d\<close> is the awaited \<open>asyncio.sleep(d)\<close>: \<open>True\<close> when the sleep
    completes, \<open>False\<close> when it is interrupted by \<open>CancelledError\<close>. For a number
    \<open>d\<close> the sleep raises nothing else.
\<close>

record env =
  clock :: "nat \<Rightarrow> datetime"
  croniter_init :: "string \<Rightarrow> datetime \<Rightarrow> string + croniter"
  get_next :: "croniter \<Rightarrow> string + datetime \<times> croniter"
  get_provider_by_id :: "nat \<Rightarrow> string \<Rightarrow> string + provider option"
  text_chat :: "nat \<Rightarrow> provider \<Rightarrow> string \<Rightarrow> string list \<Rightarrow> string \<Rightarrow> exn + llm_response option"
  send_message :: "nat \<Rightarrow> string \<Rightarrow> message_chain \<Rightarrow> exn + unit"
  sleep :: "nat \<Rightarrow> int \<Rightarrow> bool"

subsection \<open>Observable effects\<close>

datatype level = INFO | WARNING | ERROR

text \<open>The two notices of \<open>_check_and_execute_triggers\<close>: success (platform, target) and failure (error text).\<close>

datatype notice = ExecSucceeded string string | ExecFailed string

text \<open>
  One constructor for each log line of the source, with the values it interpolates.
  The first argument of the three parser lines is the kind of the list, \<open>''group''\<close> or
  \<open>''private''\<close>.
\<close>

datatype log_msg =
    TriggerAdded string string string string datetime
  | CronInvalid string string string
  | FormatError string string
  | LoopError string
  | Executing string string string
  | Executed datetime
  | TaskFailed string
  | ProviderNotFound string
  | ReplySent string string
  | NoValidReply string
  | TriggerFailed string
  | Notification notice
  | NotificationTo string notice

datatype event =
    Log level log_msg
  | TextChat provider string "string list" string
  | SendMessage string message_chain
  | Sleep int

record world =
  ticks :: nat
  trace :: "event list"

definition emit :: "event \<Rightarrow> world \<Rightarrow> world" where
  "emit e w = w\<lparr>trace := trace w @ [e]\<rparr>"

definition tick :: "world \<Rightarrow> world" where
  "tick w = w\<lparr>ticks := Suc (ticks w)\<rparr>"

section \<open>Strings\<close>

text \<open>
  \<open>s.split("::")\<close>: the separators are found from left to right and do not overlap.
  Strings are UTF-8 bytes here; the two bytes of the separator are ASCII and never occur
  inside a multi-byte character, so splitting bytes and splitting characters agree.
\<close>

fun split :: "string \<Rightarrow> string list" where
  "split [] = [[]]"
| "split [c] = [[c]]"
| "split (c # d # rest) =
     (if c = CHR '':'' \<and> d = CHR '':'' then [] # split rest
      else (case split (d # rest) of
              [] \<Rightarrow> [[c]]
            | p # ps \<Rightarrow> (c # p) # ps))"

text \<open>\<open>"::".join(parts)\<close>.\<close>

fun join :: "string list \<Rightarrow> string" where
  "join [] = []"
| "join [p] = p"
| "join (p # q # ps) = p @ '':'' @ '':'' @ join (q # ps)"

text \<open>The fixed system prompt of \<open>_execute_trigger\<close> (32 bytes of UTF-8).\<close>

definition system_prompt :: string where
  "system_prompt =
     [CHR 0xE4, CHR 0xBD, CHR 0xA0, CHR 0xE6, CHR 0x98, CHR 0xAF, CHR 0xE4, CHR 0xB8,
      CHR 0x80, CHR 0xE4, CHR 0xB8, CHR 0xAA, CHR 0xE6, CHR 0x9C, CHR 0x89, CHR 0xE7,
      CHR 0x94, CHR 0xA8, CHR 0xE7, CHR 0x9A, CHR 0x84, CHR 0x41, CHR 0x49, CHR 0xE5,
      CHR 0x8A, CHR 0xA9, CHR 0xE6, CHR 0x89, CHR 0x8B, CHR 0xE3, CHR 0x80, CHR 0x82]"

section \<open>The executor: \<open>_execute_trigger\<close>\<close>

definition unified_msg_origin :: "trigger \<Rightarrow> string" where
  "unified_msg_origin config =
     (if type config = ''group''
      then platform config @ '':group_message:'' @ target_id config
      else platform config @ '':private_message:'' @ target_id config)"

text \<open>
  The result is \<open>None\<close> when the method returns and \<open>Some e\<close> when \<open>e\<close> leaves it.
  The handler of the method catches \<open>Exception\<close>, so only \<open>CancelledError\<close> leaves.
\<close>

definition execute_trigger :: "env \<Rightarrow> trigger \<Rightarrow> world \<Rightarrow> exn option \<times> world" where
  "execute_trigger env config w =
     (case get_provider_by_id env (ticks w) (provider config) of
        Inl m \<Rightarrow> (None, emit (Log ERROR (TriggerFailed m)) (tick w))
      | Inr None \<Rightarrow> (None, emit (Log WARNING (ProviderNotFound (provider config))) (tick w))
      | Inr (Some p) \<Rightarrow>
          (let w1 = emit (TextChat p (message config) [] system_prompt) (tick w) in
           case text_chat env (ticks w1) p (message config) [] system_prompt of
             Inl CancelledError \<Rightarrow> (Some CancelledError, tick w1)
           | Inl (Exception m) \<Rightarrow> (None, emit (Log ERROR (TriggerFailed m)) (tick w1))
           | Inr llm_response \<Rightarrow>
               (case (case llm_response of None \<Rightarrow> None | Some r \<Rightarrow> result_chain r) of
                  None \<Rightarrow> (None, emit (Log WARNING (NoValidReply (provider config))) (tick w1))
                | Some chain \<Rightarrow>
                    (let w2 = emit (SendMessage (unified_msg_origin config) chain) (tick w1) in
                     case send_message env (ticks w2) (unified_msg_origin config) chain of
                       Inl CancelledError \<Rightarrow> (Some CancelledError, tick w2)
                     | Inl (Exception m) \<Rightarrow> (None, emit (Log ERROR (TriggerFailed m)) (tick w2))
                     | Inr u \<Rightarrow>
                         (None, emit (Log INFO (ReplySent (platform config) (target_id config)))
                                  (tick w2))))))"

section \<open>Notifications: \<open>_send_notification\<close>\<close>

text \<open>The \<open>level\<close> argument is not read by the method; both branches only log.\<close>

definition send_notification :: "plugin \<Rightarrow> notice \<Rightarrow> string \<Rightarrow> world \<Rightarrow> world" where
  "send_notification self msg lvl w =
     (if admin_user_id self = ''admin'' then emit (Log INFO (Notification msg)) w
      else emit (Log INFO (NotificationTo (admin_user_id self) msg)) w)"

section \<open>The scan: \<open>_check_and_execute_triggers\<close>\<close>

text \<open>The handler of the loop body (lines 168 to 171).\<close>

definition on_failure :: "plugin \<Rightarrow> string \<Rightarrow> world \<Rightarrow> world" where
  "on_failure self m w =
     (let w1 = emit (Log ERROR (TaskFailed m)) w in
      if notification_on_failure self then send_notification self (ExecFailed m) ''error'' w1
      else w1)"

text \<open>
  The body of the \<open>for\<close> loop for one entry. The result is the exception that leaves
  the body (if any), the entry after the body, and the world.
\<close>

definition check_trigger ::
  "env \<Rightarrow> plugin \<Rightarrow> datetime \<Rightarrow> trigger \<Rightarrow> world \<Rightarrow> exn option \<times> trigger \<times> world" where
  "check_trigger env self current_time config w =
     (if current_time \<ge> next_run config then
        (let w1 = emit (Log INFO (Executing (platform config) (target_id config)
                                     (cron_expression config))) w in
         case execute_trigger env config w1 of
           (Some CancelledError, w2) \<Rightarrow> (Some CancelledError, config, w2)
         | (Some (Exception m), w2) \<Rightarrow> (None, config, on_failure self m w2)
         | (None, w2) \<Rightarrow>
             (let c1 = config\<lparr>last_run := Some current_time\<rparr> in
              case croniter_init env (cron_expression c1) current_time of
                Inl m \<Rightarrow> (None, c1, on_failure self m w2)
              | Inr cr \<Rightarrow>
                  (let c2 = c1\<lparr>cron := cr\<rparr> in
                   case get_next env cr of
                     Inl m \<Rightarrow> (None, c2, on_failure self m w2)
                   | Inr (t, cr') \<Rightarrow>
                       (let c3 = c2\<lparr>cron := cr', next_run := t\<rparr>;
                            w3 = emit (Log INFO (Executed t)) w2
                        in (None, c3,
                            if notification_on_success self
                            then send_notification self
                                   (ExecSucceeded (platform c3) (target_id c3)) ''success'' w3
                            else w3)))))
      else (None, config, w))"

text \<open>
  The end of the body after the executor has returned and the next run is computed
  (lines 163 to 166): the log line and the success notice.
\<close>

definition succeed :: "plugin \<Rightarrow> trigger \<Rightarrow> datetime \<Rightarrow> world \<Rightarrow> world" where
  "succeed self config t w2 =
     (if notification_on_success self
      then send_notification self (ExecSucceeded (platform config) (target_id config)) ''success''
             (emit (Log INFO (Executed t)) w2)
      else emit (Log INFO (Executed t)) w2)"

text \<open>The \<open>for\<close> loop: the entries in list order; an exception that leaves a body ends it.\<close>

fun scan :: "env \<Rightarrow> plugin \<Rightarrow> datetime \<Rightarrow> trigger list \<Rightarrow> world
    \<Rightarrow> exn option \<times> trigger list \<times> world" where
  "scan env self current_time [] w = (None, [], w)"
| "scan env self current_time (config # rest) w =
     (case check_trigger env self current_time config w of
        (Some e, config', w') \<Rightarrow> (Some e, config' # rest, w')
      | (None, config', w') \<Rightarrow>
          (case scan env self current_time rest w' of
             (r, rest', w'') \<Rightarrow> (r, config' # rest', w'')))"

definition check_and_execute_triggers ::
  "env \<Rightarrow> plugin \<Rightarrow> world \<Rightarrow> exn option \<times> plugin \<times> world" where
  "check_and_execute_triggers env self w =
     (let current_time = clock env (ticks w) in
      case scan env self current_time (trigger_configs self) (tick w) of
        (r, configs, w') \<Rightarrow> (r, self\<lparr>trigger_configs := configs\<rparr>, w'))"

section \<open>The parser: \<open>_parse_configs\<close>\<close>

text \<open>
  The body of the two \<open>for\<close> loops for one raw string; \<open>kind\<close> is \<open>''group''\<close> in
  the first loop and \<open>''private''\<close> in the second, which differ in nothing else. The
  state is the list built so far and the world. The outer handler (lines 95 and 96, 130
  and 131) has no branch here: with a string as input nothing in the body raises outside
  the inner \<open>try\<close>.
\<close>

definition parse_config ::
  "env \<Rightarrow> string \<Rightarrow> string \<Rightarrow> trigger list \<times> world \<Rightarrow> trigger list \<times> world" where
  "parse_config env kind config_str st =
     (case st of (configs, w) \<Rightarrow>
      (let parts = split config_str in
       if length parts \<ge> 5 then
         (let platform_name = parts ! 0; ident = parts ! 1; provider_name = parts ! 2;
              cron_expr = parts ! 3;
              message_content = join (drop 4 parts);
              w1 = tick w
          in case croniter_init env cron_expr (clock env (ticks w)) of
               Inl m \<Rightarrow> (configs, emit (Log ERROR (CronInvalid kind cron_expr m)) w1)
             | Inr cr \<Rightarrow>
                 (case get_next env cr of
                    Inl m \<Rightarrow> (configs, emit (Log ERROR (CronInvalid kind cron_expr m)) w1)
                  | Inr (next_time, cr') \<Rightarrow>
                      (let w2 = tick w1 in
                       case croniter_init env cron_expr (clock env (ticks w1)) of
                         Inl m \<Rightarrow> (configs, emit (Log ERROR (CronInvalid kind cron_expr m)) w2)
                       | Inr cr2 \<Rightarrow>
                           (configs @
                              [\<lparr>type = kind, platform = platform_name, target_id = ident,
                                provider = provider_name, cron_expression = cron_expr,
                                cron = cr2, next_run = next_time, last_run = None,
                                message = message_content\<rparr>],
                            emit (Log INFO (TriggerAdded kind platform_name ident cron_expr
                                              next_time)) w2))))
       else (configs, emit (Log WARNING (FormatError kind config_str)) w)))"

definition parse_configs :: "env \<Rightarrow> plugin \<Rightarrow> world \<Rightarrow> plugin \<times> world" where
  "parse_configs env self w =
     (case fold (parse_config env ''private'') (platform_friend_provider_map self)
             (fold (parse_config env ''group'') (platform_group_provider_map self) ([], w)) of
        (configs, w') \<Rightarrow> (self\<lparr>trigger_configs := configs\<rparr>, w'))"

section \<open>The loop: \<open>_scheduler_loop\<close>\<close>

text \<open>How the \<open>while True\<close> loop ends: by its \<open>break\<close>, or by an exception that leaves it.\<close>

datatype loop_exit = Break | Raised exn

text \<open>
  The loop for any behaviour \<open>check\<close> of the awaited scan. The number is how many
  iterations are observed: the result \<open>None\<close> says that the loop is still running after
  that many iterations. The second sleep stands in the handler, outside the \<open>try\<close>:
  its \<open>CancelledError\<close> leaves the loop.
\<close>

fun scheduler_loop_with ::
  "(plugin \<Rightarrow> world \<Rightarrow> exn option \<times> plugin \<times> world) \<Rightarrow> env \<Rightarrow> nat \<Rightarrow> plugin \<Rightarrow> world
    \<Rightarrow> loop_exit option \<times> plugin \<times> world" where
  "scheduler_loop_with check env 0 self w = (None, self, w)"
| "scheduler_loop_with check env (Suc n) self w =
     (let w1 = emit (Sleep (scheduler_check_interval self)) (tick w) in
      if \<not> sleep env (ticks w) (scheduler_check_interval self) then (Some Break, self, w1)
      else
        (case check self w1 of
           (None, self', w2) \<Rightarrow> scheduler_loop_with check env n self' w2
         | (Some CancelledError, self', w2) \<Rightarrow> (Some Break, self', w2)
         | (Some (Exception m), self', w2) \<Rightarrow>
             (let w3 = emit (Log ERROR (LoopError m)) w2;
                  w4 = emit (Sleep (scheduler_check_interval self')) (tick w3)
              in if \<not> sleep env (ticks w3) (scheduler_check_interval self')
                 then (Some (Raised CancelledError), self', w4)
                 else scheduler_loop_with check env n self' w4)))"

definition scheduler_loop ::
  "env \<Rightarrow> nat \<Rightarrow> plugin \<Rightarrow> world \<Rightarrow> loop_exit option \<times> plugin \<times> world" where
  "scheduler_loop env = scheduler_loop_with (check_and_execute_triggers env) env"

section \<open>The cron evaluator\<close>

text \<open>
  The source delegates cron expressions to the \<open>croniter\<close> library, whose code is not
  part of the repository. The definitions of this section follow section 4.1 of the
  specification instead.
\<close>

text \<open>
  Modelled from the spec: the tokens and the five fields of an expression of the missing
  evaluator (minute, hour, day of month, month, day of week).
\<close>

datatype cron_item = Star | StarStep nat | Value nat | Range nat nat

record cron_expr =
  minute_f :: "cron_item list"
  hour_f :: "cron_item list"
  dom_f :: "cron_item list"
  month_f :: "cron_item list"
  dow_f :: "cron_item list"

text \<open>
  Modelled from the spec: the lexical helpers of the missing evaluator. \<open>split_on\<close>
  cuts a string at every occurrence of a character, \<open>parse_nat\<close> reads a non-empty
  string of decimal digits.
\<close>

fun split_on :: "char \<Rightarrow> string \<Rightarrow> string list" where
  "split_on sep [] = [[]]"
| "split_on sep (c # cs) =
     (if c = sep then [] # split_on sep cs
      else (case split_on sep cs of
              [] \<Rightarrow> [[c]]
            | p # ps \<Rightarrow> (c # p) # ps))"

definition digit_val :: "char \<Rightarrow> nat option" where
  "digit_val c =
     (let n = (of_char c :: nat) in if 48 \<le> n \<and> n \<le> 57 then Some (n - 48) else None)"

fun parse_nat_acc :: "nat \<Rightarrow> string \<Rightarrow> nat option" where
  "parse_nat_acc acc [] = Some acc"
| "parse_nat_acc acc (c # cs) =
     (case digit_val c of
        None \<Rightarrow> None
      | Some d \<Rightarrow> parse_nat_acc (10 * acc + d) cs)"

definition parse_nat :: "string \<Rightarrow> nat option" where
  "parse_nat s = (if s = [] then None else parse_nat_acc 0 s)"

text \<open>
  Modelled from the spec: one token of a cron field, which is missing with the croniter
  library. The tokens are those the specification lists: \<open>*\<close>, a single value, a range
  \<open>a-b\<close> and a step \<open>*/n\<close>. A token is malformed when it is none of these, when a step is
  0 or when a range runs backwards; it is out of range when a value leaves the bounds of
  the field.
\<close>

definition parse_item :: "nat \<Rightarrow> nat \<Rightarrow> string \<Rightarrow> cron_item option" where
  "parse_item lo hi s =
     (if s = ''*'' then Some Star
      else if take 2 s = ''*/'' then
        (case parse_nat (drop 2 s) of
           None \<Rightarrow> None
         | Some n \<Rightarrow> if 0 < n then Some (StarStep n) else None)
      else
        (case split_on CHR ''-'' s of
           [a] \<Rightarrow>
             (case parse_nat a of
                None \<Rightarrow> None
              | Some v \<Rightarrow> if lo \<le> v \<and> v \<le> hi then Some (Value v) else None)
         | [a, b] \<Rightarrow>
             (case parse_nat a of
                None \<Rightarrow> None
              | Some x \<Rightarrow>
                  (case parse_nat b of
                     None \<Rightarrow> None
                   | Some y \<Rightarrow>
                       if lo \<le> x \<and> x \<le> y \<and> y \<le> hi then Some (Range x y) else None))
         | _ \<Rightarrow> None))"

text \<open>Modelled from the spec: a field of the missing evaluator, a comma list of tokens.\<close>

definition parse_field :: "nat \<Rightarrow> nat \<Rightarrow> string \<Rightarrow> cron_item list option" where
  "parse_field lo hi s = those (map (parse_item lo hi) (split_on CHR '','' s))"

text \<open>
  Modelled from the spec: construction of an expression of the missing evaluator. It
  fails (\<open>None\<close>, the ParseError of the specification) when the string does not have five
  fields separated by spaces, or a field has an out-of-range or malformed token. The
  bounds are those of standard cron: minute 0 to 59, hour 0 to 23, day of month 1 to 31,
  month 1 to 12, day of week 0 to 6 with 0 for Sunday.
\<close>

definition parse_cron :: "string \<Rightarrow> cron_expr option" where
  "parse_cron s =
     (case filter (\<lambda>f. f \<noteq> []) (split_on CHR '' '' s) of
        [a, b, c, d, e] \<Rightarrow>
          (case parse_field 0 59 a of None \<Rightarrow> None | Some mi \<Rightarrow>
           case parse_field 0 23 b of None \<Rightarrow> None | Some h \<Rightarrow>
           case parse_field 1 31 c of None \<Rightarrow> None | Some dm \<Rightarrow>
           case parse_field 1 12 d of None \<Rightarrow> None | Some mo \<Rightarrow>
           case parse_field 0 6 e of None \<Rightarrow> None | Some dw \<Rightarrow>
             Some \<lparr>minute_f = mi, hour_f = h, dom_f = dm, month_f = mo, dow_f = dw\<rparr>)
      | _ \<Rightarrow> None)"

text \<open>
  Modelled from the spec: whether a value satisfies a token and a field of the missing
  evaluator; \<open>lo\<close> is the least value of the field, from which a step \<open>*/n\<close> counts.
\<close>

fun item_matches :: "nat \<Rightarrow> cron_item \<Rightarrow> nat \<Rightarrow> bool" where
  "item_matches lo Star v = True"
| "item_matches lo (StarStep n) v = (lo \<le> v \<and> (v - lo) mod n = 0)"
| "item_matches lo (Value a) v = (v = a)"
| "item_matches lo (Range a b) v = (a \<le> v \<and> v \<le> b)"

definition field_matches :: "nat \<Rightarrow> cron_item list \<Rightarrow> nat \<Rightarrow> bool" where
  "field_matches lo f v = list_ex (\<lambda>it. item_matches lo it v) f"

text \<open>
  Modelled from the spec: the calendar fields that the missing evaluator reads off an
  instant. This is the date (year, month, day) of a number of days since 1970-01-01 in the
  proleptic Gregorian calendar, which is the calendar of Python's \<open>datetime\<close>.
\<close>

definition civil_from_days :: "int \<Rightarrow> int \<times> int \<times> int" where
  "civil_from_days days =
     (let z = days + 719468;
          era = z div 146097;
          doe = z - era * 146097;
          yoe = (doe - doe div 1460 + doe div 36524 - doe div 146096) div 365;
          doy = doe - (365 * yoe + yoe div 4 - yoe div 100);
          mp = (5 * doy + 2) div 153;
          d = doy - (153 * mp + 2) div 5 + 1;
          m = (if mp < 10 then mp + 3 else mp - 9);
          y = yoe + era * 400 + (if m \<le> 2 then 1 else 0)
      in (y, m, d))"

text \<open>
  Modelled from the spec: whether the calendar fields of a minute (counted from the
  epoch) satisfy every field of an expression of the missing evaluator. Day of month and
  day of week are combined with OR when both are restricted (neither is \<open>*\<close>), with AND
  otherwise.
\<close>

definition cron_matches :: "cron_expr \<Rightarrow> int \<Rightarrow> bool" where
  "cron_matches ce m =
     (let days = m div 1440;
          wd = nat ((days + 4) mod 7)
      in case civil_from_days days of (y, mo, d) \<Rightarrow>
           field_matches 0 (minute_f ce) (nat (m mod 60)) \<and>
           field_matches 0 (hour_f ce) (nat ((m div 60) mod 24)) \<and>
           field_matches 1 (month_f ce) (nat mo) \<and>
           (if dom_f ce \<noteq> [Star] \<and> dow_f ce \<noteq> [Star]
            then field_matches 1 (dom_f ce) (nat d) \<or> field_matches 0 (dow_f ce) wd
            else field_matches 1 (dom_f ce) (nat d) \<and> field_matches 0 (dow_f ce) wd))"

text \<open>
  Modelled from the spec: the search of the missing evaluator for the earliest minute
  from \<open>m\<close> on that satisfies the expression. The specification sets no horizon, so
  the search is unbounded: \<open>None\<close> is a search that never ends, for an expression that no
  later minute satisfies.
\<close>

partial_function (option) cron_search :: "cron_expr \<Rightarrow> int \<Rightarrow> int option" where
  "cron_search ce m = (if cron_matches ce m then Some m else cron_search ce (m + 1))"

text \<open>
  Modelled from the spec: the next fire time of the missing evaluator, the earliest
  whole minute strictly after the reference instant that satisfies the expression.
\<close>

definition next_after :: "cron_expr \<Rightarrow> datetime \<Rightarrow> datetime option" where
  "next_after ce R = map_option (\<lambda>m. m * 60000000) (cron_search ce (R div 60000000 + 1))"

text \<open>
  Modelled from the spec: the two library calls of the source in terms of the evaluator
  above, as an instance of the collaborators \<open>croniter_init\<close> and \<open>get_next\<close>.
\<close>

definition spec_croniter_init :: "string \<Rightarrow> datetime \<Rightarrow> string + croniter" where
  "spec_croniter_init e t =
     (case parse_cron e of
        None \<Rightarrow> Inl ''ParseError''
      | Some ce \<Rightarrow> Inr \<lparr>expr_format = e, cur = t\<rparr>)"

definition spec_get_next :: "croniter \<Rightarrow> string + datetime \<times> croniter" where
  "spec_get_next c =
     (case parse_cron (expr_format c) of
        None \<Rightarrow> Inl ''ParseError''
      | Some ce \<Rightarrow>
          (case next_after ce (cur c) of
             None \<Rightarrow> Inl ''no next instant''
           | Some t \<Rightarrow> Inr (t, c\<lparr>cur := t\<rparr>)))"

text \<open>
  What the plugin relies on from the library: the instant returned by \<open>get_next\<close> is
  strictly after the instant the object was built with.
\<close>

definition advancing :: "env \<Rightarrow> bool" where
  "advancing env \<longleftrightarrow>
     (\<forall>e R c t c'. croniter_init env e R = Inr c \<longrightarrow> get_next env c = Inr (t, c') \<longrightarrow> R < t)"

section \<open>Example collaborators\<close>

text \<open>
  An environment whose clock starts 90 seconds after the epoch and advances by a
  microsecond per interaction, whose cron library is the evaluator above, and whose
  registry, provider, delivery and sleep give the same fixed answer to every call.
\<close>

definition fixed_env ::
  "(string + provider option) \<Rightarrow> (exn + llm_response option) \<Rightarrow> (exn + unit) \<Rightarrow> bool \<Rightarrow> env" where
  "fixed_env prov chat sent slept =
     \<lparr>clock = (\<lambda>k. 90000000 + int k),
      croniter_init = spec_croniter_init,
      get_next = spec_get_next,
      get_provider_by_id = (\<lambda>k name. prov),
      text_chat = (\<lambda>k p prompt ctx sp. chat),
      send_message = (\<lambda>k origin chain. sent),
      sleep = (\<lambda>k d. slept)\<rparr>"

text \<open>
  A trigger as the parser builds it from \<open>p1::g1::provA::* * * * *::hello\<close> in the group
  list during the first minute after the epoch: it is due from 00:01:00 on.
\<close>

definition due_trigger :: trigger where
  "due_trigger =
     \<lparr>type = ''group'', platform = ''p1'', target_id = ''g1'', provider = ''provA'',
      cron_expression = ''* * * * *'',
      cron = \<lparr>expr_format = ''* * * * *'', cur = 1\<rparr>,
      next_run = 60000000, last_run = None, message = ''hello''\<rparr>"

definition world0 :: world where
  "world0 = \<lparr>ticks = 0, trace = []\<rparr>"

definition every_minute :: cron_expr where
  "every_minute =
     \<lparr>minute_f = [Star], hour_f = [Star], dom_f = [Star], month_f = [Star], dow_f = [Star]\<rparr>"

text \<open>A plugin with both notifications switched on and the default log-only recipient.\<close>

definition plugin0 :: "trigger list \<Rightarrow> plugin" where
  "plugin0 cs =
     \<lparr>scheduler_check_interval = 30, platform_group_provider_map = [],
      platform_friend_provider_map = [], admin_user_id = ''admin'',
      notification_on_failure = True, notification_on_success = True,
      trigger_configs = cs\<rparr>"

text \<open>A provider that answers, and a provider whose \<open>text_chat\<close> raises.\<close>

definition chat_env :: env where
  "chat_env = fixed_env (Inr (Some (Provider ''A'')))
                (Inr (Some \<lparr>result_chain = Some (MessageChain ''hi'')\<rparr>)) (Inr ()) True"

definition failing_env :: env where
  "failing_env = fixed_env (Inr (Some (Provider ''A''))) (Inl (Exception ''boom'')) (Inr ()) True"

text \<open>A scan that raises an exception below \<open>Exception\<close>, for the handler of the loop.\<close>

definition raising_check :: "plugin \<Rightarrow> world \<Rightarrow> exn option \<times> plugin \<times> world" where
  "raising_check self w = (Some (Exception ''boom''), self, w)"

definition every_five :: cron_expr where
  "every_five =
     \<lparr>minute_f = [StarStep 5], hour_f = [Star], dom_f = [Star], month_f = [Star], dow_f = [Star]\<rparr>"

section \<open>Recognisers\<close>

definition is_text_chat :: "event \<Rightarrow> bool" where
  "is_text_chat e = (case e of TextChat p a b c \<Rightarrow> True | _ \<Rightarrow> False)"

definition is_executing :: "event \<Rightarrow> bool" where
  "is_executing e = (case e of Log l (Executing a b c) \<Rightarrow> True | _ \<Rightarrow> False)"

text \<open>Whether a string contains the separator \<open>::\<close>.\<close>

fun has_sep :: "string \<Rightarrow> bool" where
  "has_sep [] = False"
| "has_sep [c] = False"
| "has_sep (c # d # rest) = ((c = CHR '':'' \<and> d = CHR '':'') \<or> has_sep (d # rest))"

section \<open>Properties of the executor\<close>

lemma execute_trigger_no_exception:
  "fst (execute_trigger env config w) \<noteq> Some (Exception m)"
  by (auto simp: execute_trigger_def Let_def split: sum.splits option.splits exn.splits)

lemma execute_trigger_trace:
  "\<exists>es. trace (snd (execute_trigger env config w)) = trace w @ es \<and> \<not> list_ex is_executing es"
  by (auto simp: execute_trigger_def Let_def emit_def tick_def is_executing_def
           split: sum.splits option.splits exn.splits)

text \<open>
  The executor on a provider name that the registry does not resolve: it returns without
  raising, and all it does is log one warning. It calls no provider and delivers nothing.
\<close>

lemma execute_trigger_unresolved:
  "get_provider_by_id env (ticks w) (provider config) = Inr None \<Longrightarrow>
   execute_trigger env config w =
     (None, w\<lparr>ticks := Suc (ticks w),
              trace := trace w @ [Log WARNING (ProviderNotFound (provider config))]\<rparr>)"
  by (simp add: execute_trigger_def emit_def tick_def)

lemma execute_trigger_unresolved_example:
  "get_provider_by_id (fixed_env (Inr None) (Inr None) (Inr ()) True) (ticks world0)
       (provider due_trigger) = Inr None \<and>
   execute_trigger (fixed_env (Inr None) (Inr None) (Inr ()) True) due_trigger world0 =
     (None, \<lparr>ticks = 1, trace = [Log WARNING (ProviderNotFound ''provA'')]\<rparr>)"
  using execute_trigger_unresolved
          [of "fixed_env (Inr None) (Inr None) (Inr ()) True" world0 due_trigger]
  by (simp add: fixed_env_def world0_def due_trigger_def)

text \<open>
  C7. When the resolved provider returns a response that is absent or whose result
  payload is absent or empty, the executor returns without raising; after the provider
  call it logs one warning and makes no delivery call.
\<close>

theorem execute_trigger_empty_result:
  assumes "get_provider_by_id env (ticks w) (provider config) = Inr (Some p)"
    and "text_chat env (Suc (ticks w)) p (message config) [] system_prompt = Inr r"
    and "(case r of None \<Rightarrow> None | Some x \<Rightarrow> result_chain x) = None"
  shows "execute_trigger env config w =
     (None, w\<lparr>ticks := Suc (Suc (ticks w)),
              trace := trace w @ [TextChat p (message config) [] system_prompt,
                                  Log WARNING (NoValidReply (provider config))]\<rparr>)"
  using assms by (simp add: execute_trigger_def emit_def tick_def)

theorem execute_trigger_empty_result_witness:
  "get_provider_by_id
       (fixed_env (Inr (Some (Provider ''A''))) (Inr (Some \<lparr>result_chain = None\<rparr>)) (Inr ()) True)
       (ticks world0) (provider due_trigger) = Inr (Some (Provider ''A'')) \<and>
   text_chat
       (fixed_env (Inr (Some (Provider ''A''))) (Inr (Some \<lparr>result_chain = None\<rparr>)) (Inr ()) True)
       (Suc (ticks world0)) (Provider ''A'') (message due_trigger) [] system_prompt =
     Inr (Some \<lparr>result_chain = None\<rparr>) \<and>
   execute_trigger
       (fixed_env (Inr (Some (Provider ''A''))) (Inr (Some \<lparr>result_chain = None\<rparr>)) (Inr ()) True)
       due_trigger world0 =
     (None, \<lparr>ticks = 2, trace = [TextChat (Provider ''A'') ''hello'' [] system_prompt,
                                 Log WARNING (NoValidReply ''provA'')]\<rparr>)"
  using execute_trigger_empty_result
          [of "fixed_env (Inr (Some (Provider ''A''))) (Inr (Some \<lparr>result_chain = None\<rparr>))
                 (Inr ()) True"
              world0 due_trigger "Provider ''A''" "Some \<lparr>result_chain = None\<rparr>"]
  by (simp add: fixed_env_def world0_def due_trigger_def)

text \<open>
  C9. When the provider resolves, the executor calls it once, with the prompt of the
  trigger, an empty context and the fixed system prompt. Every delivery it makes goes to
  the address composed of the platform, the tag \<open>group_message\<close> for a group trigger
  and \<open>private_message\<close> otherwise, and the target; a payload that Python treats as
  true is delivered there right after the provider call.
\<close>

theorem execute_trigger_calls:
  assumes "get_provider_by_id env (ticks w) (provider config) = Inr (Some p)"
  shows "(\<exists>es. trace (snd (execute_trigger env config w)) =
                 trace w @ TextChat p (message config) [] system_prompt # es \<and>
               \<not> list_ex is_text_chat es \<and>
               (\<forall>origin chain. SendMessage origin chain \<in> set es \<longrightarrow>
                  origin = unified_msg_origin config) \<and>
               (\<forall>r chain.
                  text_chat env (Suc (ticks w)) p (message config) [] system_prompt = Inr (Some r) \<longrightarrow>
                  result_chain r = Some chain \<longrightarrow>
                  (\<exists>es'. es = SendMessage (unified_msg_origin config) chain # es'))) \<and>
         unified_msg_origin config =
           platform config @ '':'' @
           (if type config = ''group'' then ''group_message'' else ''private_message'') @
           '':'' @ target_id config"
  using assms
  by (auto simp: execute_trigger_def emit_def tick_def Let_def is_text_chat_def
                 unified_msg_origin_def
           split: sum.splits exn.splits option.splits)

theorem execute_trigger_calls_witness:
  "get_provider_by_id
       (fixed_env (Inr (Some (Provider ''A'')))
          (Inr (Some \<lparr>result_chain = Some (MessageChain ''hi'')\<rparr>)) (Inr ()) True)
       (ticks world0) (provider due_trigger) = Inr (Some (Provider ''A'')) \<and>
   trace (snd (execute_trigger
       (fixed_env (Inr (Some (Provider ''A'')))
          (Inr (Some \<lparr>result_chain = Some (MessageChain ''hi'')\<rparr>)) (Inr ()) True)
       due_trigger world0)) =
     [TextChat (Provider ''A'') ''hello'' [] system_prompt,
      SendMessage ''p1:group_message:g1'' (MessageChain ''hi''),
      Log INFO (ReplySent ''p1'' ''g1'')] \<and>
   unified_msg_origin due_trigger = ''p1:group_message:g1'' \<and>
   unified_msg_origin (due_trigger\<lparr>type := ''private''\<rparr>) = ''p1:private_message:g1''"
  using execute_trigger_calls
          [of "fixed_env (Inr (Some (Provider ''A'')))
                 (Inr (Some \<lparr>result_chain = Some (MessageChain ''hi'')\<rparr>)) (Inr ()) True"
              world0 due_trigger "Provider ''A''"]
        execute_trigger_calls
          [of "fixed_env (Inr (Some (Provider ''A'')))
                 (Inr (Some \<lparr>result_chain = Some (MessageChain ''hi'')\<rparr>)) (Inr ()) True"
              world0 "due_trigger\<lparr>type := ''private''\<rparr>" "Provider ''A''"]
  by (simp add: fixed_env_def world0_def due_trigger_def execute_trigger_def emit_def tick_def
                unified_msg_origin_def)

section \<open>Properties of the cron evaluator\<close>

lemma cron_search_hit: "cron_matches ce m \<Longrightarrow> cron_search ce m = Some m"
  by (subst cron_search.simps) simp

lemma cron_search_skip: "\<not> cron_matches ce m \<Longrightarrow> cron_search ce m = cron_search ce (m + 1)"
  by (subst cron_search.simps) simp

lemma cron_search_sound:
  assumes "cron_search ce m = Some r"
  shows "m \<le> r \<and> cron_matches ce r \<and> (\<forall>k. m \<le> k \<and> k < r \<longrightarrow> \<not> cron_matches ce k)"
proof (rule cron_search.raw_induct
         [where P = "\<lambda>ce m r. m \<le> r \<and> cron_matches ce r \<and>
                        (\<forall>k. m \<le> k \<and> k < r \<longrightarrow> \<not> cron_matches ce k)", OF _ assms])
  fix f :: "cron_expr \<Rightarrow> int \<Rightarrow> int option" and ce m r
  assume IH: "\<And>ce m r. f ce m = Some r \<Longrightarrow>
                 m \<le> r \<and> cron_matches ce r \<and> (\<forall>k. m \<le> k \<and> k < r \<longrightarrow> \<not> cron_matches ce k)"
    and eq: "(if cron_matches ce m then Some m else f ce (m + 1)) = Some r"
  show "m \<le> r \<and> cron_matches ce r \<and> (\<forall>k. m \<le> k \<and> k < r \<longrightarrow> \<not> cron_matches ce k)"
  proof (cases "cron_matches ce m")
    case True
    with eq show ?thesis by auto
  next
    case False
    with eq have "f ce (m + 1) = Some r" by simp
    from IH[OF this] have s: "m + 1 \<le> r" "cron_matches ce r"
      "\<forall>k. m + 1 \<le> k \<and> k < r \<longrightarrow> \<not> cron_matches ce k" by auto
    have "\<not> cron_matches ce k" if "m \<le> k" "k < r" for k
    proof (cases "k = m")
      case True with False show ?thesis by simp
    next
      case False with that s(3) show ?thesis by auto
    qed
    with s show ?thesis by auto
  qed
qed

lemma cron_search_total:
  "cron_matches ce (m + int k) \<Longrightarrow> \<exists>r. cron_search ce m = Some r"
proof (induction k arbitrary: m)
  case 0
  then show ?case by (simp add: cron_search_hit)
next
  case (Suc k)
  show ?case
  proof (cases "cron_matches ce m")
    case True
    then show ?thesis by (simp add: cron_search_hit)
  next
    case False
    from Suc.prems have "cron_matches ce ((m + 1) + int k)" by (simp add: algebra_simps)
    from Suc.IH[OF this] False show ?thesis by (simp add: cron_search_skip)
  qed
qed

lemma next_after_later: "next_after ce R = Some t \<Longrightarrow> R < t"
proof -
  assume "next_after ce R = Some t"
  then obtain m where m: "cron_search ce (R div 60000000 + 1) = Some m" and t: "t = m * 60000000"
    by (auto simp: next_after_def)
  from cron_search_sound[OF m] have "R div 60000000 + 1 \<le> m" by simp
  then have "(R div 60000000 + 1) * 60000000 \<le> t" using t by simp
  moreover have "R < (R div 60000000 + 1) * 60000000"
    by (simp add: algebra_simps)
  ultimately show ?thesis by simp
qed

lemma parse_every_minute: "parse_cron ''* * * * *'' = Some every_minute"
  by (simp add: parse_cron_def parse_field_def parse_item_def every_minute_def)

lemma every_minute_matches: "cron_matches every_minute m"
  by (simp add: cron_matches_def every_minute_def field_matches_def Let_def split: prod.splits)

lemma next_after_every_minute: "next_after every_minute R = Some ((R div 60000000 + 1) * 60000000)"
  by (simp add: next_after_def cron_search_hit every_minute_matches)

lemma next_after_exists:
  assumes "R div 60000000 < k" and "cron_matches ce k"
  shows "\<exists>t. next_after ce R = Some t"
proof -
  have "k = (R div 60000000 + 1) + int (nat (k - (R div 60000000 + 1)))"
    using assms(1) by simp
  with assms(2) have "cron_matches ce ((R div 60000000 + 1) + int (nat (k - (R div 60000000 + 1))))"
    by simp
  from cron_search_total[OF this] show ?thesis by (auto simp: next_after_def)
qed

lemma next_after_earliest:
  assumes "next_after ce R = Some t"
  shows "t mod 60000000 = 0 \<and> cron_matches ce (t div 60000000) \<and>
         (\<forall>k. R div 60000000 < k \<and> k < t div 60000000 \<longrightarrow> \<not> cron_matches ce k)"
proof -
  from assms obtain m where m: "cron_search ce (R div 60000000 + 1) = Some m" and t: "t = m * 60000000"
    by (auto simp: next_after_def)
  from cron_search_sound[OF m] t show ?thesis by auto
qed

lemma spec_advancing: "advancing (fixed_env prov chat sent slept)"
  unfolding advancing_def
proof (intro allI impI)
  fix e R c t c'
  assume i: "croniter_init (fixed_env prov chat sent slept) e R = Inr c"
    and g: "get_next (fixed_env prov chat sent slept) c = Inr (t, c')"
  from i have c: "c = \<lparr>expr_format = e, cur = R\<rparr>"
    by (auto simp: fixed_env_def spec_croniter_init_def split: option.splits)
  from g c obtain ce where "next_after ce R = Some t"
    by (auto simp: fixed_env_def spec_get_next_def split: option.splits)
  then show "R < t" by (rule next_after_later)
qed

lemma parse_item_sat:
  assumes "parse_item lo hi s = Some it" and "lo \<le> hi"
  shows "\<exists>v. lo \<le> v \<and> v \<le> hi \<and> item_matches lo it v"
proof -
  consider "it = Star" | n where "it = StarStep n" | v where "it = Value v" "lo \<le> v" "v \<le> hi"
    | a b where "it = Range a b" "lo \<le> a" "a \<le> b" "b \<le> hi"
    using assms(1)
    by (auto simp: parse_item_def split: if_splits option.splits list.splits)
  then show ?thesis
  proof cases
    case 1 with assms(2) show ?thesis by auto
  next
    case 2 with assms(2) show ?thesis by (intro exI[of _ lo]) auto
  next
    case 3 then show ?thesis by auto
  next
    case 4 then show ?thesis by (intro exI[of _ a]) auto
  qed
qed

lemma split_on_not_Nil: "split_on sep s \<noteq> []"
  by (induction s) (auto split: list.splits)

lemma those_Cons:
  "those (x # xs) = Some ys \<Longrightarrow> \<exists>y ys'. x = Some y \<and> ys = y # ys'"
  by (auto split: option.splits)

lemma parse_field_sat:
  assumes "parse_field lo hi s = Some f" and "lo \<le> hi"
  shows "\<exists>v. lo \<le> v \<and> v \<le> hi \<and> field_matches lo f v"
proof -
  obtain t ts where sp: "split_on CHR '','' s = t # ts"
    using split_on_not_Nil[of "CHR '',''" s] by (cases "split_on CHR '','' s") auto
  with assms(1) obtain it f' where it: "parse_item lo hi t = Some it" and f: "f = it # f'"
    using those_Cons[of "parse_item lo hi t" "map (parse_item lo hi) ts" f]
    by (auto simp: parse_field_def)
  from parse_item_sat[OF it assms(2)] obtain v where "lo \<le> v" "v \<le> hi" "item_matches lo it v"
    by blast
  with f show ?thesis by (auto simp: field_matches_def)
qed

lemma daily_recurs:
  assumes p: "parse_cron e = Some ce"
    and d: "dom_f ce = [Star]" "month_f ce = [Star]" "dow_f ce = [Star]"
  shows "\<exists>k. m < k \<and> cron_matches ce k"
proof -
  from p obtain a b where "parse_field 0 59 a = Some (minute_f ce)"
    "parse_field 0 23 b = Some (hour_f ce)"
    by (auto simp: parse_cron_def split: list.splits option.splits)
  then obtain mi h where mi: "mi \<le> 59" "field_matches 0 (minute_f ce) mi"
    and h: "h \<le> 23" "field_matches 0 (hour_f ce) h"
    using parse_field_sat[of 0 59 a "minute_f ce"] parse_field_sat[of 0 23 b "hour_f ce"]
    by auto
  let ?k = "1440 * (\<bar>m\<bar> + 1) + 60 * int h + int mi"
  define q where "q = 24 * (\<bar>m\<bar> + 1) + int h"
  have e: "?k = 60 * q + int mi" by (simp add: q_def)
  have k1: "?k mod 60 = int mi" unfolding e using mi(1) by simp
  have "?k div 60 = q" unfolding e using mi(1) by simp
  moreover have "q mod 24 = int h"
  proof -
    have "q = 24 * (\<bar>m\<bar> + 1) + int h" by (simp add: q_def)
    then have "q mod 24 = int h mod 24" by (simp only: mod_mult_self4)
    with h(1) show ?thesis by simp
  qed
  ultimately have k2: "(?k div 60) mod 24 = int h" by simp
  have "m < ?k" by simp
  moreover have "cron_matches ce ?k"
    using mi(2) h(2) d k1 k2
    by (simp add: cron_matches_def Let_def field_matches_def split: prod.splits)
  ultimately show ?thesis by blast
qed

text \<open>
  C3. For every expression that the evaluator accepts and every reference instant, a
  next fire time that the evaluator returns is strictly after the reference, and the time
  it returns from that result is strictly later again. The evaluator does return both
  whenever the expression is satisfied by arbitrarily late minutes, which is so for every
  accepted expression whose day of month, month and day of week are \<open>*\<close>.
\<close>

theorem next_after_strictly_advances:
  assumes "parse_cron expr = Some ce"
  shows "(\<forall>t. next_after ce R = Some t \<longrightarrow>
            R < t \<and> (\<forall>t'. next_after ce t = Some t' \<longrightarrow> t < t')) \<and>
         ((\<forall>m. \<exists>k. m < k \<and> cron_matches ce k) \<longrightarrow>
            (\<exists>t t'. next_after ce R = Some t \<and> next_after ce t = Some t' \<and> R < t \<and> t < t')) \<and>
         (dom_f ce = [Star] \<and> month_f ce = [Star] \<and> dow_f ce = [Star] \<longrightarrow>
            (\<exists>t t'. next_after ce R = Some t \<and> next_after ce t = Some t' \<and> R < t \<and> t < t'))"
proof -
  have later: "R < t \<and> (\<forall>t'. next_after ce t = Some t' \<longrightarrow> t < t')"
    if "next_after ce R = Some t" for t
    using that next_after_later by blast
  have total: "\<exists>t t'. next_after ce R = Some t \<and> next_after ce t = Some t' \<and> R < t \<and> t < t'"
    if rec: "\<forall>m. \<exists>k. m < k \<and> cron_matches ce k"
  proof -
    from rec obtain k where "R div 60000000 < k" "cron_matches ce k" by blast
    then obtain t where t: "next_after ce R = Some t" using next_after_exists by blast
    from rec obtain k' where "t div 60000000 < k'" "cron_matches ce k'" by blast
    then obtain t' where t': "next_after ce t = Some t'" using next_after_exists by blast
    from t t' show ?thesis using next_after_later by blast
  qed
  have "\<forall>m. \<exists>k. m < k \<and> cron_matches ce k"
    if "dom_f ce = [Star] \<and> month_f ce = [Star] \<and> dow_f ce = [Star]"
    using daily_recurs[OF assms] that by blast
  with later total show ?thesis by blast
qed

theorem next_after_strictly_advances_witness:
  "parse_cron ''* * * * *'' = Some every_minute \<and>
   (\<forall>m. \<exists>k. m < k \<and> cron_matches every_minute k) \<and>
   next_after every_minute 90000000 = Some 120000000 \<and>
   next_after every_minute 120000000 = Some 180000000 \<and>
   (\<exists>t t'. next_after every_minute 90000000 = Some t \<and> next_after every_minute t = Some t' \<and>
      (90000000::int) < t \<and> t < t')"
proof -
  have rec: "\<forall>m. \<exists>k. m < k \<and> cron_matches every_minute k"
    using every_minute_matches by (metis zless_add1_eq)
  with next_after_strictly_advances[OF parse_every_minute, of 90000000]
  show ?thesis
    by (simp add: parse_every_minute next_after_every_minute)
qed

section \<open>Properties of the scan\<close>

lemma scan_append:
  "scan env self t (xs @ ys) w =
     (case scan env self t xs w of
        (Some e, xs', w') \<Rightarrow> (Some e, xs' @ ys, w')
      | (None, xs', w') \<Rightarrow>
          (case scan env self t ys w' of (r, ys', w'') \<Rightarrow> (r, xs' @ ys', w'')))"
proof (induction xs arbitrary: w)
  case Nil
  show ?case by (simp split: prod.splits)
next
  case (Cons x xs)
  show ?case
    by (simp add: Cons.IH split: prod.splits option.splits)
qed

lemma check_trigger_due:
  assumes "next_run config \<le> now"
    and "execute_trigger env config
           (emit (Log INFO (Executing (platform config) (target_id config) (cron_expression config))) w)
         = (r, w2)"
    and "r \<noteq> Some CancelledError"
    and "croniter_init env (cron_expression config) now = Inr cr"
    and "get_next env cr = Inr (t, cr')"
  shows "check_trigger env self now config w =
     (None, config\<lparr>last_run := Some now, cron := cr', next_run := t\<rparr>,
      if notification_on_success self
      then send_notification self (ExecSucceeded (platform config) (target_id config)) ''success''
             (emit (Log INFO (Executed t)) w2)
      else emit (Log INFO (Executed t)) w2)"
proof -
  have "r \<noteq> Some (Exception m)" for m
    using execute_trigger_no_exception[of env config _ m] assms(2) by (metis fst_conv)
  with assms(3) have "r = None" by (cases r) (auto, metis exn.exhaust)
  with assms show ?thesis by (simp add: check_trigger_def Let_def)
qed

lemma spec_init_every_minute:
  "spec_croniter_init ''* * * * *'' t = Inr \<lparr>expr_format = ''* * * * *'', cur = t\<rparr>"
  by (simp add: spec_croniter_init_def parse_every_minute)

lemma spec_next_every_minute:
  "spec_get_next \<lparr>expr_format = ''* * * * *'', cur = t\<rparr> =
     Inr ((t div 60000000 + 1) * 60000000,
          \<lparr>expr_format = ''* * * * *'', cur = (t div 60000000 + 1) * 60000000\<rparr>)"
  by (simp add: spec_get_next_def parse_every_minute next_after_every_minute)

lemmas eval_simps = fixed_env_def world0_def due_trigger_def plugin0_def
  check_and_execute_triggers_def check_trigger_def execute_trigger_def on_failure_def
  send_notification_def emit_def tick_def Let_def unified_msg_origin_def
  spec_init_every_minute spec_next_every_minute

text \<open>
  C2. In a scan that reaches an entry whose next run is at or before the instant the scan
  read at its start, and that is not cancelled while the entry executes, the entry is
  executed once: the world passes through one call of the executor between the two log
  lines. Its last run becomes the instant of the scan and its next run the instant that
  the cron library returns for that instant, which is strictly later. The scan goes on
  with the entries after it only, so the entry is not fired again.
\<close>

theorem scan_fires_due_once:
  assumes adv: "advancing env"
    and cfgs: "trigger_configs self = pre @ config # post"
    and reach: "scan env self (clock env (ticks w)) pre (tick w) = (None, pre', w1)"
    and due: "next_run config \<le> clock env (ticks w)"
    and exec: "execute_trigger env config
                 (emit (Log INFO (Executing (platform config) (target_id config)
                                    (cron_expression config))) w1) = (r, w2)"
    and nc: "r \<noteq> Some CancelledError"
    and init: "croniter_init env (cron_expression config) (clock env (ticks w)) = Inr cr"
    and nxt: "get_next env cr = Inr (t, cr')"
  shows "check_and_execute_triggers env self w =
           (case scan env self (clock env (ticks w)) post (succeed self config t w2) of
              (r', post', w') \<Rightarrow>
                (r', self\<lparr>trigger_configs :=
                         pre' @ config\<lparr>last_run := Some (clock env (ticks w)), cron := cr',
                                       next_run := t\<rparr> # post'\<rparr>, w')) \<and>
         clock env (ticks w) < t \<and>
         (\<exists>es. trace (succeed self config t w2) = trace w1 @ es \<and>
               length (filter is_executing es) = 1)"
proof -
  let ?now = "clock env (ticks w)"
  have ct: "check_trigger env self ?now config w1 =
      (None, config\<lparr>last_run := Some ?now, cron := cr', next_run := t\<rparr>, succeed self config t w2)"
    using check_trigger_due[OF due exec nc init nxt] by (simp add: succeed_def)
  have 1: "check_and_execute_triggers env self w =
           (case scan env self ?now post (succeed self config t w2) of
              (r', post', w') \<Rightarrow>
                (r', self\<lparr>trigger_configs :=
                         pre' @ config\<lparr>last_run := Some ?now, cron := cr', next_run := t\<rparr> # post'\<rparr>, w'))"
    by (simp add: check_and_execute_triggers_def cfgs scan_append reach ct split: prod.splits)
  have 2: "?now < t" using adv init nxt by (auto simp: advancing_def)
  obtain es where es: "trace w2 = trace w1 @ Log INFO (Executing (platform config) (target_id config)
                                    (cron_expression config)) # es" "\<not> list_ex is_executing es"
    using execute_trigger_trace[of env config "emit (Log INFO (Executing (platform config) (target_id config)
                                    (cron_expression config))) w1"] exec
    by (auto simp: emit_def)
  then have 3: "\<exists>es. trace (succeed self config t w2) = trace w1 @ es \<and>
               length (filter is_executing es) = 1"
    by (auto simp: succeed_def send_notification_def emit_def is_executing_def list_ex_iff
             intro!: filter_False)
  from 1 2 3 show ?thesis by blast
qed

theorem scan_fires_due_once_witness:
  "advancing chat_env \<and>
   next_run due_trigger \<le> clock chat_env (ticks world0) \<and>
   check_and_execute_triggers chat_env
     (plugin0 [due_trigger\<lparr>target_id := ''g0'', next_run := 120000000\<rparr>, due_trigger]) world0 =
   (None,
    plugin0 [due_trigger\<lparr>target_id := ''g0'', next_run := 120000000\<rparr>,
             due_trigger\<lparr>last_run := Some 90000000,
                         cron := \<lparr>expr_format = ''* * * * *'', cur = 120000000\<rparr>,
                         next_run := 120000000\<rparr>],
    \<lparr>ticks = 4,
     trace = [Log INFO (Executing ''p1'' ''g1'' ''* * * * *''),
              TextChat (Provider ''A'') ''hello'' [] system_prompt,
              SendMessage ''p1:group_message:g1'' (MessageChain ''hi''),
              Log INFO (ReplySent ''p1'' ''g1''),
              Log INFO (Executed 120000000),
              Log INFO (Notification (ExecSucceeded ''p1'' ''g1''))]\<rparr>)"
proof -
  let ?self = "plugin0 [due_trigger\<lparr>target_id := ''g0'', next_run := 120000000\<rparr>, due_trigger]"
  let ?w2 = "\<lparr>ticks = 4,
     trace = [Log INFO (Executing ''p1'' ''g1'' ''* * * * *''),
              TextChat (Provider ''A'') ''hello'' [] system_prompt,
              SendMessage ''p1:group_message:g1'' (MessageChain ''hi''),
              Log INFO (ReplySent ''p1'' ''g1'')]\<rparr>"
  have adv: "advancing chat_env" unfolding chat_env_def by (rule spec_advancing)
  have cfgs: "trigger_configs ?self =
        [due_trigger\<lparr>target_id := ''g0'', next_run := 120000000\<rparr>] @ due_trigger # []"
    by (simp add: plugin0_def)
  have reach: "scan chat_env ?self (clock chat_env (ticks world0))
        [due_trigger\<lparr>target_id := ''g0'', next_run := 120000000\<rparr>] (tick world0) =
        (None, [due_trigger\<lparr>target_id := ''g0'', next_run := 120000000\<rparr>], \<lparr>ticks = 1, trace = []\<rparr>)"
    by (simp add: chat_env_def eval_simps)
  have due: "next_run due_trigger \<le> clock chat_env (ticks world0)"
    by (simp add: chat_env_def eval_simps)
  have exec: "execute_trigger chat_env due_trigger
        (emit (Log INFO (Executing (platform due_trigger) (target_id due_trigger)
                           (cron_expression due_trigger))) \<lparr>ticks = 1, trace = []\<rparr>) = (None, ?w2)"
    by (simp add: chat_env_def eval_simps)
  have nc: "(None :: exn option) \<noteq> Some CancelledError" by simp
  have init: "croniter_init chat_env (cron_expression due_trigger) (clock chat_env (ticks world0)) =
        Inr \<lparr>expr_format = ''* * * * *'', cur = 90000000\<rparr>"
    by (simp add: chat_env_def eval_simps)
  have nxt: "get_next chat_env \<lparr>expr_format = ''* * * * *'', cur = 90000000\<rparr> =
        Inr (120000000, \<lparr>expr_format = ''* * * * *'', cur = 120000000\<rparr>)"
    by (simp add: chat_env_def eval_simps)
  from scan_fires_due_once[OF adv cfgs reach due exec nc init nxt] adv due
  show ?thesis
    by (simp add: succeed_def chat_env_def eval_simps)
qed

text \<open>
  C10. The executor never lets an exception below \<open>Exception\<close> out. So whenever a due
  entry is fired and the executor is not cancelled, the body goes on as after a success:
  last run and next run are updated and, with success notices switched on, the success
  notice is emitted. This is so in particular when the provider call or the delivery
  raised, which shows in the trace as a logged error before the success notice.
\<close>

theorem check_trigger_succeeds_regardless:
  assumes due: "next_run config \<le> now"
    and exec: "execute_trigger env config
                 (emit (Log INFO (Executing (platform config) (target_id config)
                                    (cron_expression config))) w) = (r, w2)"
    and nc: "r \<noteq> Some CancelledError"
    and init: "croniter_init env (cron_expression config) now = Inr cr"
    and nxt: "get_next env cr = Inr (t, cr')"
  shows "r = None \<and>
         check_trigger env self now config w =
           (None, config\<lparr>last_run := Some now, cron := cr', next_run := t\<rparr>,
            succeed self config t w2) \<and>
         (notification_on_success self \<longrightarrow>
            trace (succeed self config t w2) =
              trace w2 @ [Log INFO (Executed t),
                          Log INFO (if admin_user_id self = ''admin''
                                    then Notification (ExecSucceeded (platform config) (target_id config))
                                    else NotificationTo (admin_user_id self)
                                           (ExecSucceeded (platform config) (target_id config)))]) \<and>
         (\<forall>p m. get_provider_by_id env (ticks w) (provider config) = Inr (Some p) \<longrightarrow>
                text_chat env (Suc (ticks w)) p (message config) [] system_prompt = Inl (Exception m) \<longrightarrow>
                trace w2 = trace w @ [Log INFO (Executing (platform config) (target_id config)
                                                   (cron_expression config)),
                                      TextChat p (message config) [] system_prompt,
                                      Log ERROR (TriggerFailed m)]) \<and>
         (\<forall>p x chain m. get_provider_by_id env (ticks w) (provider config) = Inr (Some p) \<longrightarrow>
                text_chat env (Suc (ticks w)) p (message config) [] system_prompt = Inr (Some x) \<longrightarrow>
                result_chain x = Some chain \<longrightarrow>
                send_message env (Suc (Suc (ticks w))) (unified_msg_origin config) chain = Inl (Exception m) \<longrightarrow>
                trace w2 = trace w @ [Log INFO (Executing (platform config) (target_id config)
                                                   (cron_expression config)),
                                      TextChat p (message config) [] system_prompt,
                                      SendMessage (unified_msg_origin config) chain,
                                      Log ERROR (TriggerFailed m)])"
proof -
  have "r \<noteq> Some (Exception m)" for m
    using execute_trigger_no_exception[of env config _ m] exec by (metis fst_conv)
  with nc have r: "r = None" by (cases r) (auto, metis exn.exhaust)
  have ct: "check_trigger env self now config w =
           (None, config\<lparr>last_run := Some now, cron := cr', next_run := t\<rparr>,
            succeed self config t w2)"
    using check_trigger_due[OF due exec nc init nxt] by (simp add: succeed_def)
  have n: "notification_on_success self \<longrightarrow>
            trace (succeed self config t w2) =
              trace w2 @ [Log INFO (Executed t),
                          Log INFO (if admin_user_id self = ''admin''
                                    then Notification (ExecSucceeded (platform config) (target_id config))
                                    else NotificationTo (admin_user_id self)
                                           (ExecSucceeded (platform config) (target_id config)))]"
    by (simp add: succeed_def send_notification_def emit_def)
  have p: "\<forall>p m. get_provider_by_id env (ticks w) (provider config) = Inr (Some p) \<longrightarrow>
                text_chat env (Suc (ticks w)) p (message config) [] system_prompt = Inl (Exception m) \<longrightarrow>
                trace w2 = trace w @ [Log INFO (Executing (platform config) (target_id config)
                                                   (cron_expression config)),
                                      TextChat p (message config) [] system_prompt,
                                      Log ERROR (TriggerFailed m)]"
    using exec by (auto simp: execute_trigger_def emit_def tick_def)
  have d: "\<forall>p x chain m. get_provider_by_id env (ticks w) (provider config) = Inr (Some p) \<longrightarrow>
                text_chat env (Suc (ticks w)) p (message config) [] system_prompt = Inr (Some x) \<longrightarrow>
                result_chain x = Some chain \<longrightarrow>
                send_message env (Suc (Suc (ticks w))) (unified_msg_origin config) chain = Inl (Exception m) \<longrightarrow>
                trace w2 = trace w @ [Log INFO (Executing (platform config) (target_id config)
                                                   (cron_expression config)),
                                      TextChat p (message config) [] system_prompt,
                                      SendMessage (unified_msg_origin config) chain,
                                      Log ERROR (TriggerFailed m)]"
    using exec by (auto simp: execute_trigger_def emit_def tick_def)
  from r ct n p d show ?thesis by blast
qed

theorem check_trigger_succeeds_regardless_witness:
  "next_run due_trigger \<le> 90000000 \<and>
   execute_trigger failing_env due_trigger
     (emit (Log INFO (Executing (platform due_trigger) (target_id due_trigger)
                        (cron_expression due_trigger))) world0) =
     (None, \<lparr>ticks = 2, trace = [Log INFO (Executing ''p1'' ''g1'' ''* * * * *''),
                                 TextChat (Provider ''A'') ''hello'' [] system_prompt,
                                 Log ERROR (TriggerFailed ''boom'')]\<rparr>) \<and>
   check_trigger failing_env (plugin0 [due_trigger]) 90000000 due_trigger world0 =
     (None,
      due_trigger\<lparr>last_run := Some 90000000,
                  cron := \<lparr>expr_format = ''* * * * *'', cur = 120000000\<rparr>,
                  next_run := 120000000\<rparr>,
      \<lparr>ticks = 2, trace = [Log INFO (Executing ''p1'' ''g1'' ''* * * * *''),
                           TextChat (Provider ''A'') ''hello'' [] system_prompt,
                           Log ERROR (TriggerFailed ''boom''),
                           Log INFO (Executed 120000000),
                           Log INFO (Notification (ExecSucceeded ''p1'' ''g1''))]\<rparr>)"
proof -
  let ?w2 = "\<lparr>ticks = 2, trace = [Log INFO (Executing ''p1'' ''g1'' ''* * * * *''),
                                 TextChat (Provider ''A'') ''hello'' [] system_prompt,
                                 Log ERROR (TriggerFailed ''boom'')]\<rparr>"
  have due: "next_run due_trigger \<le> 90000000" by (simp add: due_trigger_def)
  have exec: "execute_trigger failing_env due_trigger
     (emit (Log INFO (Executing (platform due_trigger) (target_id due_trigger)
                        (cron_expression due_trigger))) world0) = (None, ?w2)"
    by (simp add: failing_env_def eval_simps)
  have nc: "(None :: exn option) \<noteq> Some CancelledError" by simp
  have init: "croniter_init failing_env (cron_expression due_trigger) 90000000 =
        Inr \<lparr>expr_format = ''* * * * *'', cur = 90000000\<rparr>"
    by (simp add: failing_env_def eval_simps)
  have nxt: "get_next failing_env \<lparr>expr_format = ''* * * * *'', cur = 90000000\<rparr> =
        Inr (120000000, \<lparr>expr_format = ''* * * * *'', cur = 120000000\<rparr>)"
    by (simp add: failing_env_def eval_simps)
  from check_trigger_succeeds_regardless
         [OF due exec nc init nxt, of "plugin0 [due_trigger]"] due exec
  show ?thesis
    by (simp add: succeed_def plugin0_def send_notification_def emit_def due_trigger_def)
qed

text \<open>
  C1 at a concrete scan. Both triggers are due, both notifications are switched on and
  the provider raises for each call. The scan completes both entries, but it emits no
  failure notice: each failure is followed by a success notice.
\<close>

theorem provider_failure_scan:
  "check_and_execute_triggers failing_env
     (plugin0 [due_trigger, due_trigger\<lparr>target_id := ''g2''\<rparr>]) world0 =
   (None,
    plugin0 [due_trigger\<lparr>last_run := Some 90000000,
                         cron := \<lparr>expr_format = ''* * * * *'', cur = 120000000\<rparr>,
                         next_run := 120000000\<rparr>,
             due_trigger\<lparr>target_id := ''g2'', last_run := Some 90000000,
                         cron := \<lparr>expr_format = ''* * * * *'', cur = 120000000\<rparr>,
                         next_run := 120000000\<rparr>],
    \<lparr>ticks = 5,
     trace = [Log INFO (Executing ''p1'' ''g1'' ''* * * * *''),
              TextChat (Provider ''A'') ''hello'' [] system_prompt,
              Log ERROR (TriggerFailed ''boom''),
              Log INFO (Executed 120000000),
              Log INFO (Notification (ExecSucceeded ''p1'' ''g1'')),
              Log INFO (Executing ''p1'' ''g2'' ''* * * * *''),
              TextChat (Provider ''A'') ''hello'' [] system_prompt,
              Log ERROR (TriggerFailed ''boom''),
              Log INFO (Executed 120000000),
              Log INFO (Notification (ExecSucceeded ''p1'' ''g2''))]\<rparr>)"
  by (simp add: failing_env_def eval_simps)

text \<open>
  The loop body on a due entry whose provider name is not resolved: after the warning of
  the executor it goes on as after a success.
\<close>

lemma check_trigger_unresolved:
  assumes due: "next_run config \<le> now"
    and none: "get_provider_by_id env (ticks w) (provider config) = Inr None"
    and init: "croniter_init env (cron_expression config) now = Inr cr"
    and nxt: "get_next env cr = Inr (t, cr')"
  shows "check_trigger env self now config w =
           (None, config\<lparr>last_run := Some now, cron := cr', next_run := t\<rparr>,
            succeed self config t
              (w\<lparr>ticks := Suc (ticks w),
                 trace := trace w @
                   [Log INFO (Executing (platform config) (target_id config)
                                (cron_expression config)),
                    Log WARNING (ProviderNotFound (provider config))]\<rparr>))"
proof -
  let ?w1 = "emit (Log INFO (Executing (platform config) (target_id config)
                                (cron_expression config))) w"
  have t: "get_provider_by_id env (ticks ?w1) (provider config) = Inr None"
    using none by (simp add: emit_def)
  have exec: "execute_trigger env config ?w1 =
      (None, w\<lparr>ticks := Suc (ticks w),
                 trace := trace w @
                   [Log INFO (Executing (platform config) (target_id config)
                                (cron_expression config)),
                    Log WARNING (ProviderNotFound (provider config))]\<rparr>)"
    using execute_trigger_unresolved[OF t] by (simp add: emit_def)
  have nc: "(None :: exn option) \<noteq> Some CancelledError" by simp
  from check_trigger_due[OF due exec nc init nxt] show ?thesis
    by (simp add: succeed_def)
qed

text \<open>
  C8 at a concrete scan. The trigger is due, both notifications are switched on and the
  registry does not resolve the provider name. The executor logs its warning and returns
  without raising, with no provider call and no delivery, and no failure notice follows.
  But the scan then emits the success notice, although nothing was executed.
\<close>

theorem unresolved_provider_scan:
  "check_and_execute_triggers (fixed_env (Inr None) (Inr None) (Inr ()) True)
     (plugin0 [due_trigger]) world0 =
   (None,
    plugin0 [due_trigger\<lparr>last_run := Some 90000000,
                         cron := \<lparr>expr_format = ''* * * * *'', cur = 120000000\<rparr>,
                         next_run := 120000000\<rparr>],
    \<lparr>ticks = 2,
     trace = [Log INFO (Executing ''p1'' ''g1'' ''* * * * *''),
              Log WARNING (ProviderNotFound ''provA''),
              Log INFO (Executed 120000000),
              Log INFO (Notification (ExecSucceeded ''p1'' ''g1''))]\<rparr>)"
  by (simp add: eval_simps)

section \<open>Properties of the parser\<close>

lemma split_not_Nil: "split s \<noteq> []"
  by (induction s rule: split.induct) (auto split: list.splits)

lemma join_Cons: "ps \<noteq> [] \<Longrightarrow> join (p # ps) = p @ ''::'' @ join ps"
  by (cases ps) auto

lemma join_split: "join (split s) = s"
proof (induction s rule: split.induct)
  case 1 show ?case by simp
next
  case (2 c) show ?case by simp
next
  case (3 c d rest)
  show ?case
  proof (cases "c = CHR '':'' \<and> d = CHR '':''")
    case True
    with 3 show ?thesis by (simp add: join_Cons split_not_Nil)
  next
    case False
    obtain p ps where sp: "split (d # rest) = p # ps"
      using split_not_Nil[of "d # rest"] by (cases "split (d # rest)") auto
    with 3 False have "join (p # ps) = d # rest" by simp
    with sp False show ?thesis by (cases ps) auto
  qed
qed

lemma split_head:
  "split (d # rest) = p # ps \<Longrightarrow> p = [] \<or> hd p = d"
  by (cases rest) (auto split: if_splits list.splits)

lemma split_head_Nil:
  "split (d # rest) = [] # ps \<Longrightarrow> d = CHR '':''"
  by (cases rest) (auto split: if_splits list.splits)

lemma has_sep_Cons: "has_sep (c # p) = ((c = CHR '':'' \<and> p \<noteq> [] \<and> hd p = CHR '':'') \<or> has_sep p)"
  by (cases p) auto

lemma split_no_sep: "p \<in> set (split s) \<Longrightarrow> \<not> has_sep p"
proof (induction s arbitrary: p rule: split.induct)
  case 1 then show ?case by simp
next
  case (2 c) then show ?case by simp
next
  case (3 c d rest)
  show ?case
  proof (cases "c = CHR '':'' \<and> d = CHR '':''")
    case True
    with 3 show ?thesis by auto
  next
    case False
    obtain q qs where sp: "split (d # rest) = q # qs"
      using split_not_Nil[of "d # rest"] by (cases "split (d # rest)") auto
    from "3.prems" False sp have "p = c # q \<or> p \<in> set qs" by auto
    then show ?thesis
    proof
      assume p: "p = c # q"
      have nq: "\<not> has_sep q" using "3.IH"(2)[OF False, of q] sp by simp
      have "\<not> (c = CHR '':'' \<and> q \<noteq> [] \<and> hd q = CHR '':'')"
        using split_head[OF sp] False by auto
      with nq p show ?thesis by (simp add: has_sep_Cons)
    next
      assume "p \<in> set qs"
      then show ?thesis using "3.IH"(2)[OF False, of p] sp by simp
    qed
  qed
qed

lemma at_least_five:
  "5 \<le> length xs \<Longrightarrow> \<exists>a b c d e rest. xs = a # b # c # d # e # rest"
  by (auto simp: numeral_eq_Suc Suc_le_length_iff)

lemma split_decompose:
  assumes "5 \<le> length (split s)"
  shows "s = split s ! 0 @ ''::'' @ split s ! 1 @ ''::'' @ split s ! 2 @ ''::'' @ split s ! 3 @ ''::'' @
             join (drop 4 (split s))"
proof -
  from assms obtain a b c d e rest where sp: "split s = a # b # c # d # e # rest"
    using at_least_five by blast
  have "split s ! 0 @ ''::'' @ split s ! 1 @ ''::'' @ split s ! 2 @ ''::'' @ split s ! 3 @ ''::'' @
          join (drop 4 (split s)) = join (split s)"
    by (simp add: sp)
  then show ?thesis by (simp only: join_split)
qed

lemma parse_config_accept:
  assumes "5 \<le> length (split s)"
    and "croniter_init env (split s ! 3) (clock env (ticks w)) = Inr cr"
    and "get_next env cr = Inr (t, cr')"
    and "croniter_init env (split s ! 3) (clock env (Suc (ticks w))) = Inr cr2"
  shows "parse_config env kind s (configs, w) =
           (configs @ [\<lparr>type = kind, platform = split s ! 0, target_id = split s ! 1,
                        provider = split s ! 2, cron_expression = split s ! 3, cron = cr2,
                        next_run = t, last_run = None, message = join (drop 4 (split s))\<rparr>],
            emit (Log INFO (TriggerAdded kind (split s ! 0) (split s ! 1) (split s ! 3) t))
              (tick (tick w)))"
  using assms by (simp add: parse_config_def Let_def tick_def)

lemma split_example:
  "split ''p1::g1::provA::*/5 * * * *::hello::world'' =
     [''p1'', ''g1'', ''provA'', ''*/5 * * * *'', ''hello'', ''world'']"
  by simp

lemma parse_every_five: "parse_cron ''*/5 * * * *'' = Some every_five"
  by (simp add: parse_cron_def parse_field_def parse_item_def parse_nat_def digit_val_def
                every_five_def)

lemma every_five_matches: "cron_matches every_five m \<longleftrightarrow> nat (m mod 60) mod 5 = 0"
  by (simp add: cron_matches_def every_five_def field_matches_def Let_def split: prod.splits)

lemma next_after_every_five: "next_after every_five 90000000 = Some 300000000"
  "next_after every_five 90000001 = Some 300000000"
  by (simp_all add: next_after_def cron_search_skip every_five_matches cron_search_hit)

text \<open>
  C4. Whenever the cron library accepts \<open>*/5 * * * *\<close>, the raw string
  \<open>p1::g1::provA::*/5 * * * *::hello::world\<close> yields one trigger with platform \<open>p1\<close>,
  target \<open>g1\<close>, provider \<open>provA\<close>, that expression and the message
  \<open>hello::world\<close>. In general, for a raw string of at least five segments whose fourth
  segment the library accepts, the first four segments are the fields and hold no
  separator, the message is the remaining segments joined with the separator, and the
  raw string is the four fields and the message with a separator between them.
\<close>

theorem parse_config_fields:
  "(\<forall>env kind configs w cr t cr' cr2.
      croniter_init env ''*/5 * * * *'' (clock env (ticks w)) = Inr cr \<longrightarrow>
      get_next env cr = Inr (t, cr') \<longrightarrow>
      croniter_init env ''*/5 * * * *'' (clock env (Suc (ticks w))) = Inr cr2 \<longrightarrow>
      parse_config env kind ''p1::g1::provA::*/5 * * * *::hello::world'' (configs, w) =
        (configs @ [\<lparr>type = kind, platform = ''p1'', target_id = ''g1'', provider = ''provA'',
                     cron_expression = ''*/5 * * * *'', cron = cr2, next_run = t,
                     last_run = None, message = ''hello::world''\<rparr>],
         emit (Log INFO (TriggerAdded kind ''p1'' ''g1'' ''*/5 * * * *'' t)) (tick (tick w)))) \<and>
   (\<forall>env kind s configs w cr t cr' cr2.
      5 \<le> length (split s) \<longrightarrow>
      croniter_init env (split s ! 3) (clock env (ticks w)) = Inr cr \<longrightarrow>
      get_next env cr = Inr (t, cr') \<longrightarrow>
      croniter_init env (split s ! 3) (clock env (Suc (ticks w))) = Inr cr2 \<longrightarrow>
      (\<exists>c. fst (parse_config env kind s (configs, w)) = configs @ [c] \<and>
           platform c = split s ! 0 \<and> target_id c = split s ! 1 \<and> provider c = split s ! 2 \<and>
           cron_expression c = split s ! 3 \<and> message c = join (drop 4 (split s)) \<and>
           \<not> has_sep (platform c) \<and> \<not> has_sep (target_id c) \<and> \<not> has_sep (provider c) \<and>
           \<not> has_sep (cron_expression c) \<and>
           s = platform c @ ''::'' @ target_id c @ ''::'' @ provider c @ ''::'' @
               cron_expression c @ ''::'' @ message c))"
proof (intro conjI allI impI)
  fix env :: env and w :: world and kind configs cr t cr' cr2
  assume "croniter_init env ''*/5 * * * *'' (clock env (ticks w)) = Inr cr"
    and "get_next env cr = Inr (t, cr')"
    and "croniter_init env ''*/5 * * * *'' (clock env (Suc (ticks w))) = Inr cr2"
  then show "parse_config env kind ''p1::g1::provA::*/5 * * * *::hello::world'' (configs, w) =
        (configs @ [\<lparr>type = kind, platform = ''p1'', target_id = ''g1'', provider = ''provA'',
                     cron_expression = ''*/5 * * * *'', cron = cr2, next_run = t,
                     last_run = None, message = ''hello::world''\<rparr>],
         emit (Log INFO (TriggerAdded kind ''p1'' ''g1'' ''*/5 * * * *'' t)) (tick (tick w)))"
    using parse_config_accept[of "''p1::g1::provA::*/5 * * * *::hello::world''" env w cr t cr' cr2 kind configs]
    by (simp add: split_example)
next
  fix env :: env and w :: world and kind s configs cr t cr' cr2
  assume len: "5 \<le> length (split s)"
    and i: "croniter_init env (split s ! 3) (clock env (ticks w)) = Inr cr"
    and g: "get_next env cr = Inr (t, cr')"
    and i2: "croniter_init env (split s ! 3) (clock env (Suc (ticks w))) = Inr cr2"
  let ?c = "\<lparr>type = kind, platform = split s ! 0, target_id = split s ! 1,
                        provider = split s ! 2, cron_expression = split s ! 3, cron = cr2,
                        next_run = t, last_run = None, message = join (drop 4 (split s))\<rparr>"
  have 1: "fst (parse_config env kind s (configs, w)) = configs @ [?c]"
    using parse_config_accept[OF len i g i2] by simp
  have ns: "\<not> has_sep (split s ! k)" if "k < 4" for k
    using split_no_sep[of "split s ! k" s] len that by simp
  have 2: "s = platform ?c @ ''::'' @ target_id ?c @ ''::'' @ provider ?c @ ''::'' @
               cron_expression ?c @ ''::'' @ message ?c"
    using split_decompose[OF len] by simp
  show "\<exists>c. fst (parse_config env kind s (configs, w)) = configs @ [c] \<and>
           platform c = split s ! 0 \<and> target_id c = split s ! 1 \<and> provider c = split s ! 2 \<and>
           cron_expression c = split s ! 3 \<and> message c = join (drop 4 (split s)) \<and>
           \<not> has_sep (platform c) \<and> \<not> has_sep (target_id c) \<and> \<not> has_sep (provider c) \<and>
           \<not> has_sep (cron_expression c) \<and>
           s = platform c @ ''::'' @ target_id c @ ''::'' @ provider c @ ''::'' @
               cron_expression c @ ''::'' @ message c"
    apply (rule exI[of _ ?c])
    using 1 2 ns[of 0] ns[of 1] ns[of 2] ns[of 3] by simp
qed

theorem parse_config_fields_witness:
  "parse_config chat_env ''group'' ''p1::g1::provA::*/5 * * * *::hello::world'' ([], world0) =
     ([\<lparr>type = ''group'', platform = ''p1'', target_id = ''g1'', provider = ''provA'',
        cron_expression = ''*/5 * * * *'',
        cron = \<lparr>expr_format = ''*/5 * * * *'', cur = 90000001\<rparr>,
        next_run = 300000000, last_run = None, message = ''hello::world''\<rparr>],
      \<lparr>ticks = 2,
       trace = [Log INFO (TriggerAdded ''group'' ''p1'' ''g1'' ''*/5 * * * *'' 300000000)]\<rparr>) \<and>
   5 \<le> length (split ''p1::g1::provA::*/5 * * * *::hello::world'') \<and>
   ''p1::g1::provA::*/5 * * * *::hello::world'' =
     ''p1'' @ ''::'' @ ''g1'' @ ''::'' @ ''provA'' @ ''::'' @ ''*/5 * * * *'' @ ''::'' @ ''hello::world''"
proof -
  have i: "croniter_init chat_env ''*/5 * * * *'' (clock chat_env (ticks world0)) =
             Inr \<lparr>expr_format = ''*/5 * * * *'', cur = 90000000\<rparr>"
    by (simp add: chat_env_def fixed_env_def world0_def spec_croniter_init_def parse_every_five)
  have g: "get_next chat_env \<lparr>expr_format = ''*/5 * * * *'', cur = 90000000\<rparr> =
             Inr (300000000, \<lparr>expr_format = ''*/5 * * * *'', cur = 300000000\<rparr>)"
    by (simp add: chat_env_def fixed_env_def spec_get_next_def parse_every_five
                  next_after_every_five)
  have i2: "croniter_init chat_env ''*/5 * * * *'' (clock chat_env (Suc (ticks world0))) =
             Inr \<lparr>expr_format = ''*/5 * * * *'', cur = 90000001\<rparr>"
    by (simp add: chat_env_def fixed_env_def world0_def spec_croniter_init_def parse_every_five)
  from parse_config_fields[THEN conjunct1, rule_format, OF i g i2, of "''group''" "[]"]
  show ?thesis
    by (simp add: world0_def emit_def tick_def)
qed

lemma parse_config_reject:
  "length (split s) < 5 \<Longrightarrow>
   parse_config env kind s (configs, w) = (configs, emit (Log WARNING (FormatError kind s)) w)"
  by (simp add: parse_config_def Let_def)

lemma parse_config_progress:
  assumes "fst st = fst st'" and "ticks (snd st) = ticks (snd st')"
  shows "fst (parse_config env kind x st) = fst (parse_config env kind x st') \<and>
         ticks (snd (parse_config env kind x st)) = ticks (snd (parse_config env kind x st'))"
  using assms
  by (cases st; cases st')
     (auto simp: parse_config_def Let_def emit_def tick_def split: sum.splits prod.splits)

lemma fold_parse_progress:
  assumes "fst st = fst st'" and "ticks (snd st) = ticks (snd st')"
  shows "fst (fold (parse_config env kind) ys st) = fst (fold (parse_config env kind) ys st') \<and>
         ticks (snd (fold (parse_config env kind) ys st)) =
           ticks (snd (fold (parse_config env kind) ys st'))"
  using assms
proof (induction ys arbitrary: st st')
  case Nil
  then show ?case by simp
next
  case (Cons y ys)
  from parse_config_progress[OF Cons.prems, of env kind y]
  have "fst (parse_config env kind y st) = fst (parse_config env kind y st')"
    and "ticks (snd (parse_config env kind y st)) = ticks (snd (parse_config env kind y st'))"
    by blast+
  from Cons.IH[OF this] show ?case by simp
qed

lemma parse_config_trace:
  "set (trace (snd st)) \<subseteq> set (trace (snd (parse_config env kind x st)))"
  by (cases st)
     (auto simp: parse_config_def Let_def emit_def tick_def split: sum.splits prod.splits)

lemma fold_parse_trace:
  "set (trace (snd st)) \<subseteq> set (trace (snd (fold (parse_config env kind) ys st)))"
proof (induction ys arbitrary: st)
  case Nil
  show ?case by simp
next
  case (Cons y ys)
  from parse_config_trace[of st env kind y] Cons.IH[of "parse_config env kind y st"]
  show ?case by auto
qed

lemma fold_parse_skip:
  assumes "length (split s) < 5"
  shows "fst (fold (parse_config env kind) (xs @ s # ys) st) =
           fst (fold (parse_config env kind) (xs @ ys) st) \<and>
         ticks (snd (fold (parse_config env kind) (xs @ s # ys) st)) =
           ticks (snd (fold (parse_config env kind) (xs @ ys) st)) \<and>
         Log WARNING (FormatError kind s) \<in>
           set (trace (snd (fold (parse_config env kind) (xs @ s # ys) st)))"
proof -
  obtain c1 w1 where st1: "fold (parse_config env kind) xs st = (c1, w1)"
    by (cases "fold (parse_config env kind) xs st")
  have rej: "parse_config env kind s (c1, w1) = (c1, emit (Log WARNING (FormatError kind s)) w1)"
    using assms by (rule parse_config_reject)
  have "fst (c1, emit (Log WARNING (FormatError kind s)) w1) = fst (c1, w1)"
    and "ticks (snd (c1, emit (Log WARNING (FormatError kind s)) w1)) = ticks (snd (c1, w1))"
    by (simp_all add: emit_def)
  from fold_parse_progress[OF this, of env kind ys]
  have a: "fst (fold (parse_config env kind) (xs @ s # ys) st) =
           fst (fold (parse_config env kind) (xs @ ys) st) \<and>
         ticks (snd (fold (parse_config env kind) (xs @ s # ys) st)) =
           ticks (snd (fold (parse_config env kind) (xs @ ys) st))"
    by (simp add: st1 rej)
  have "Log WARNING (FormatError kind s) \<in>
          set (trace (snd (c1, emit (Log WARNING (FormatError kind s)) w1)))"
    by (simp add: emit_def)
  with fold_parse_trace[of "(c1, emit (Log WARNING (FormatError kind s)) w1)" env kind ys]
  have b: "Log WARNING (FormatError kind s) \<in>
           set (trace (snd (fold (parse_config env kind) (xs @ s # ys) st)))"
    by (auto simp: st1 rej)
  from a b show ?thesis by simp
qed

lemma parse_configs_result:
  "trigger_configs (fst (parse_configs env self w)) =
     fst (fold (parse_config env ''private'') (platform_friend_provider_map self)
            (fold (parse_config env ''group'') (platform_group_provider_map self) ([], w)))"
  "snd (parse_configs env self w) =
     snd (fold (parse_config env ''private'') (platform_friend_provider_map self)
            (fold (parse_config env ''group'') (platform_group_provider_map self) ([], w)))"
  by (simp_all add: parse_configs_def split: prod.splits)

text \<open>
  C5. A raw string of fewer than five segments adds no trigger: all it does is log one
  line (at warning level) that names it. Removing it from either list of a batch changes
  nothing in the triggers the batch produces, and the log line is in the log of the batch.
\<close>

theorem short_string_skipped:
  assumes "length (split s) < 5"
  shows "parse_config env kind s (configs, w) =
           (configs, emit (Log WARNING (FormatError kind s)) w) \<and>
         trigger_configs (fst (parse_configs env
             (self\<lparr>platform_group_provider_map := xs @ s # ys\<rparr>) w)) =
           trigger_configs (fst (parse_configs env
             (self\<lparr>platform_group_provider_map := xs @ ys\<rparr>) w)) \<and>
         Log WARNING (FormatError ''group'' s) \<in> set (trace (snd (parse_configs env
             (self\<lparr>platform_group_provider_map := xs @ s # ys\<rparr>) w))) \<and>
         trigger_configs (fst (parse_configs env
             (self\<lparr>platform_friend_provider_map := xs @ s # ys\<rparr>) w)) =
           trigger_configs (fst (parse_configs env
             (self\<lparr>platform_friend_provider_map := xs @ ys\<rparr>) w)) \<and>
         Log WARNING (FormatError ''private'' s) \<in> set (trace (snd (parse_configs env
             (self\<lparr>platform_friend_provider_map := xs @ s # ys\<rparr>) w)))"
proof -
  let ?g = "\<lambda>l. fold (parse_config env ''group'') l ([], w)"
  have 1: "parse_config env kind s (configs, w) =
           (configs, emit (Log WARNING (FormatError kind s)) w)"
    using assms by (rule parse_config_reject)
  from fold_parse_skip[OF assms, of env "''group''" xs ys "([], w)"]
  have g: "fst (?g (xs @ s # ys)) = fst (?g (xs @ ys))"
    "ticks (snd (?g (xs @ s # ys))) = ticks (snd (?g (xs @ ys)))"
    "Log WARNING (FormatError ''group'' s) \<in> set (trace (snd (?g (xs @ s # ys))))"
    by blast+
  from fold_parse_progress[OF g(1) g(2), of env "''private''" "platform_friend_provider_map self"]
  have 2: "trigger_configs (fst (parse_configs env
             (self\<lparr>platform_group_provider_map := xs @ s # ys\<rparr>) w)) =
           trigger_configs (fst (parse_configs env
             (self\<lparr>platform_group_provider_map := xs @ ys\<rparr>) w))"
    by (simp add: parse_configs_result)
  from g(3) fold_parse_trace[of "?g (xs @ s # ys)" env "''private''" "platform_friend_provider_map self"]
  have 3: "Log WARNING (FormatError ''group'' s) \<in> set (trace (snd (parse_configs env
             (self\<lparr>platform_group_provider_map := xs @ s # ys\<rparr>) w)))"
    by (auto simp add: parse_configs_result)
  from fold_parse_skip[OF assms, of env "''private''" xs ys "?g (platform_group_provider_map self)"]
  have 4: "trigger_configs (fst (parse_configs env
             (self\<lparr>platform_friend_provider_map := xs @ s # ys\<rparr>) w)) =
           trigger_configs (fst (parse_configs env
             (self\<lparr>platform_friend_provider_map := xs @ ys\<rparr>) w))"
    and 5: "Log WARNING (FormatError ''private'' s) \<in> set (trace (snd (parse_configs env
             (self\<lparr>platform_friend_provider_map := xs @ s # ys\<rparr>) w)))"
    by (simp_all add: parse_configs_result)
  from 1 2 3 4 5 show ?thesis by blast
qed

theorem short_string_skipped_witness:
  "length (split ''p1::g1::provA::* * * * *'') < 5 \<and>
   parse_config chat_env ''group'' ''p1::g1::provA::* * * * *'' ([], world0) =
     ([], \<lparr>ticks = 0, trace = [Log WARNING (FormatError ''group'' ''p1::g1::provA::* * * * *'')]\<rparr>) \<and>
   trigger_configs (fst (parse_configs chat_env
       ((plugin0 [])\<lparr>platform_group_provider_map :=
                        [] @ ''p1::g1::provA::* * * * *'' # [''p1::g1::provA::* * * * *::hello'']\<rparr>)
       world0)) =
     [\<lparr>type = ''group'', platform = ''p1'', target_id = ''g1'', provider = ''provA'',
       cron_expression = ''* * * * *'',
       cron = \<lparr>expr_format = ''* * * * *'', cur = 90000001\<rparr>,
       next_run = 120000000, last_run = None, message = ''hello''\<rparr>]"
proof -
  have short: "length (split ''p1::g1::provA::* * * * *'') < 5" by simp
  have good: "trigger_configs (fst (parse_configs chat_env
       ((plugin0 [])\<lparr>platform_group_provider_map := [] @ [''p1::g1::provA::* * * * *::hello'']\<rparr>)
       world0)) =
     [\<lparr>type = ''group'', platform = ''p1'', target_id = ''g1'', provider = ''provA'',
       cron_expression = ''* * * * *'',
       cron = \<lparr>expr_format = ''* * * * *'', cur = 90000001\<rparr>,
       next_run = 120000000, last_run = None, message = ''hello''\<rparr>]"
    by (simp add: parse_configs_def parse_config_def chat_env_def fixed_env_def world0_def
                  plugin0_def Let_def tick_def emit_def spec_init_every_minute
                  spec_next_every_minute)
  from short_string_skipped
         [OF short, where env = chat_env and kind = "''group''" and configs = "[]"
            and w = world0 and self = "plugin0 []" and xs = "[]"
            and ys = "[''p1::g1::provA::* * * * *::hello'']"] short good
  show ?thesis
    by (simp add: world0_def emit_def)
qed

section \<open>Properties of the loop\<close>

lemma loop_exit_cancel:
  "scheduler_loop_with check env n self w = (Some x, self', w') \<Longrightarrow>
   x = Break \<or> x = Raised CancelledError"
proof (induction n arbitrary: self w)
  case 0
  then show ?case by simp
next
  case (Suc n)
  then show ?case
    by (auto simp: Let_def split: if_splits prod.splits option.splits exn.splits)
qed

lemma loop_runs:
  assumes "\<forall>k d. sleep env k d" and "\<forall>s v. fst (check s v) \<noteq> Some CancelledError"
  shows "fst (scheduler_loop_with check env n self w) = None"
proof (induction n arbitrary: self w)
  case 0
  show ?case by simp
next
  case (Suc n)
  let ?w1 = "emit (Sleep (scheduler_check_interval self)) (tick w)"
  obtain r s' w2 where c: "check self ?w1 = (r, s', w2)" by (cases "check self ?w1")
  with assms(2) have "r \<noteq> Some CancelledError" by (metis fst_conv)
  then show ?case
    using assms(1) c Suc.IH
    by (cases r) (auto simp: Let_def split: exn.splits)
qed

lemma loop_retry:
  assumes "sleep env (ticks w) (scheduler_check_interval self)"
    and "check self (emit (Sleep (scheduler_check_interval self)) (tick w)) =
           (Some (Exception m), self', w2)"
    and "sleep env (ticks w2) (scheduler_check_interval self')"
  shows "scheduler_loop_with check env (Suc n) self w =
           scheduler_loop_with check env n self'
             (emit (Sleep (scheduler_check_interval self'))
                (tick (emit (Log ERROR (LoopError m)) w2)))"
  using assms by (simp add: Let_def emit_def)

lemma execute_trigger_not_cancelled:
  assumes "\<forall>k p a b c. text_chat env k p a b c \<noteq> Inl CancelledError"
    and "\<forall>k origin chain. send_message env k origin chain \<noteq> Inl CancelledError"
  shows "fst (execute_trigger env config w) = None"
  using assms
  by (auto simp: execute_trigger_def Let_def split: sum.splits option.splits exn.splits)

lemma check_trigger_not_cancelled:
  assumes "\<forall>k p a b c. text_chat env k p a b c \<noteq> Inl CancelledError"
    and "\<forall>k origin chain. send_message env k origin chain \<noteq> Inl CancelledError"
  shows "fst (check_trigger env self now config w) = None"
proof -
  let ?w1 = "emit (Log INFO (Executing (platform config) (target_id config)
                                (cron_expression config))) w"
  have "fst (execute_trigger env config ?w1) = None"
    using assms by (rule execute_trigger_not_cancelled)
  then obtain w2 where "execute_trigger env config ?w1 = (None, w2)"
    by (cases "execute_trigger env config ?w1") auto
  then show ?thesis
    by (auto simp: check_trigger_def Let_def split: sum.splits)
qed

lemma scan_not_cancelled:
  assumes "\<forall>k p a b c. text_chat env k p a b c \<noteq> Inl CancelledError"
    and "\<forall>k origin chain. send_message env k origin chain \<noteq> Inl CancelledError"
  shows "fst (scan env self now cs w) = None"
proof (induction cs arbitrary: w)
  case Nil
  show ?case by simp
next
  case (Cons c cs)
  have "fst (check_trigger env self now c w) = None"
    using assms by (rule check_trigger_not_cancelled)
  then obtain c' w' where "check_trigger env self now c w = (None, c', w')"
    by (cases "check_trigger env self now c w") auto
  with Cons.IH[of w'] show ?case by (cases "scan env self now cs w'") auto
qed

lemma check_and_execute_not_cancelled:
  assumes "\<forall>k p a b c. text_chat env k p a b c \<noteq> Inl CancelledError"
    and "\<forall>k origin chain. send_message env k origin chain \<noteq> Inl CancelledError"
  shows "fst (check_and_execute_triggers env self w) = None"
  using scan_not_cancelled[OF assms, of self "clock env (ticks w)" "trigger_configs self" "tick w"]
  by (cases "scan env self (clock env (ticks w)) (trigger_configs self) (tick w)")
     (auto simp: check_and_execute_triggers_def)

text \<open>
  C6. For any behaviour of the scan: the loop ends only by its \<open>break\<close> or by a
  \<open>CancelledError\<close> from the sleep of its handler, never by an exception below
  \<open>Exception\<close>; while no await is cancelled it is still running after any number of
  iterations; and when the scan raises an exception below \<open>Exception\<close>, the loop logs
  it, sleeps and goes on with the next iteration. The loop of the plugin itself keeps
  running as long as no sleep, provider call or delivery is cancelled.
\<close>

theorem scheduler_loop_survives:
  "(\<forall>x. fst (scheduler_loop_with check env n self w) = Some x \<longrightarrow>
        x = Break \<or> x = Raised CancelledError) \<and>
   ((\<forall>k d. sleep env k d) \<and> (\<forall>s v. fst (check s v) \<noteq> Some CancelledError) \<longrightarrow>
      fst (scheduler_loop_with check env n self w) = None) \<and>
   (\<forall>m self' w2.
      sleep env (ticks w) (scheduler_check_interval self) \<longrightarrow>
      check self (emit (Sleep (scheduler_check_interval self)) (tick w)) =
        (Some (Exception m), self', w2) \<longrightarrow>
      sleep env (ticks w2) (scheduler_check_interval self') \<longrightarrow>
      scheduler_loop_with check env (Suc n) self w =
        scheduler_loop_with check env n self'
          (emit (Sleep (scheduler_check_interval self'))
             (tick (emit (Log ERROR (LoopError m)) w2)))) \<and>
   ((\<forall>k d. sleep env k d) \<and>
    (\<forall>k p a b c. text_chat env k p a b c \<noteq> Inl CancelledError) \<and>
    (\<forall>k origin chain. send_message env k origin chain \<noteq> Inl CancelledError) \<longrightarrow>
      fst (scheduler_loop env n self w) = None)"
proof (intro conjI allI impI)
  fix x assume "fst (scheduler_loop_with check env n self w) = Some x"
  then obtain s' w' where "scheduler_loop_with check env n self w = (Some x, s', w')"
    by (cases "scheduler_loop_with check env n self w") auto
  then show "x = Break \<or> x = Raised CancelledError" by (rule loop_exit_cancel)
next
  assume "(\<forall>k d. sleep env k d) \<and> (\<forall>s v. fst (check s v) \<noteq> Some CancelledError)"
  then show "fst (scheduler_loop_with check env n self w) = None"
    using loop_runs by blast
next
  fix m self' w2
  assume "sleep env (ticks w) (scheduler_check_interval self)"
    and "check self (emit (Sleep (scheduler_check_interval self)) (tick w)) =
           (Some (Exception m), self', w2)"
    and "sleep env (ticks w2) (scheduler_check_interval self')"
  then show "scheduler_loop_with check env (Suc n) self w =
        scheduler_loop_with check env n self'
          (emit (Sleep (scheduler_check_interval self'))
             (tick (emit (Log ERROR (LoopError m)) w2)))"
    by (rule loop_retry)
next
  assume a: "(\<forall>k d. sleep env k d) \<and>
    (\<forall>k p a b c. text_chat env k p a b c \<noteq> Inl CancelledError) \<and>
    (\<forall>k origin chain. send_message env k origin chain \<noteq> Inl CancelledError)"
  then have "\<forall>s v. fst (check_and_execute_triggers env s v) \<noteq> Some CancelledError"
    using check_and_execute_not_cancelled[of env] by simp
  with a show "fst (scheduler_loop env n self w) = None"
    unfolding scheduler_loop_def using loop_runs by blast
qed

theorem scheduler_loop_survives_witness:
  "scheduler_loop_with raising_check chat_env (Suc (Suc 0)) (plugin0 []) world0 =
     (None, plugin0 [],
      \<lparr>ticks = 4,
       trace = [Sleep 30, Log ERROR (LoopError ''boom''), Sleep 30,
                Sleep 30, Log ERROR (LoopError ''boom''), Sleep 30]\<rparr>) \<and>
   fst (scheduler_loop failing_env (Suc (Suc (Suc 0))) (plugin0 [due_trigger]) world0) = None \<and>
   scheduler_loop (fixed_env (Inr None) (Inr None) (Inr ()) False) (Suc (Suc (Suc 0)))
       (plugin0 [due_trigger]) world0 =
     (Some Break, plugin0 [due_trigger], \<lparr>ticks = 1, trace = [Sleep 30]\<rparr>)"
proof -
  have s: "sleep chat_env (ticks world0) (scheduler_check_interval (plugin0 []))"
    by (simp add: chat_env_def fixed_env_def)
  have c: "raising_check (plugin0 [])
             (emit (Sleep (scheduler_check_interval (plugin0 []))) (tick world0)) =
           (Some (Exception ''boom''), plugin0 [], \<lparr>ticks = 1, trace = [Sleep 30]\<rparr>)"
    by (simp add: raising_check_def plugin0_def world0_def emit_def tick_def)
  have s2: "sleep chat_env (ticks \<lparr>ticks = 1, trace = [Sleep 30]\<rparr>)
              (scheduler_check_interval (plugin0 []))"
    by (simp add: chat_env_def fixed_env_def)
  have nc: "(\<forall>k d. sleep failing_env k d) \<and>
    (\<forall>k p a b c. text_chat failing_env k p a b c \<noteq> Inl CancelledError) \<and>
    (\<forall>k origin chain. send_message failing_env k origin chain \<noteq> Inl CancelledError)"
    by (simp add: failing_env_def fixed_env_def)
  from scheduler_loop_survives
         [where check = raising_check and env = chat_env and n = "Suc 0"
            and self = "plugin0 []" and w = world0,
          THEN conjunct2, THEN conjunct2, THEN conjunct1, rule_format, OF s c s2]
  have 1: "scheduler_loop_with raising_check chat_env (Suc (Suc 0)) (plugin0 []) world0 =
     (None, plugin0 [],
      \<lparr>ticks = 4,
       trace = [Sleep 30, Log ERROR (LoopError ''boom''), Sleep 30,
                Sleep 30, Log ERROR (LoopError ''boom''), Sleep 30]\<rparr>)"
    by (simp add: raising_check_def plugin0_def emit_def tick_def chat_env_def fixed_env_def)
  from scheduler_loop_survives
         [where env = failing_env and n = "Suc (Suc (Suc 0))"
            and self = "plugin0 [due_trigger]" and w = world0,
          THEN conjunct2, THEN conjunct2, THEN conjunct2, rule_format, OF nc]
  have 2: "fst (scheduler_loop failing_env (Suc (Suc (Suc 0))) (plugin0 [due_trigger]) world0) = None" .
  have 3: "scheduler_loop (fixed_env (Inr None) (Inr None) (Inr ()) False) (Suc (Suc (Suc 0)))
       (plugin0 [due_trigger]) world0 =
     (Some Break, plugin0 [due_trigger], \<lparr>ticks = 1, trace = [Sleep 30]\<rparr>)"
    by (simp add: scheduler_loop_def fixed_env_def plugin0_def world0_def emit_def tick_def)
  from 1 2 3 show ?thesis by blast
qed

end
